theory Spec2Isabelle
  imports Complex_Main "HOL-Library.Log_Nat"
begin

section \<open>The route screen of the maps application\<close>

text \<open>
  The file \<^verbatim>\<open>src/app/index.tsx\<close> holds two revisions of the component \<^verbatim>\<open>Home\<close>.
  The first (lines 1 to 493) spaces its route requests by \<^verbatim>\<open>REQUEST_INTERVAL_MS\<close> and never
  cancels one; the second (lines 494 to 1017) aborts the previous request through an
  \<^verbatim>\<open>AbortController\<close>, has no spacing check, and densifies the polyline it receives.
  Both are embedded here, side by side, over one state record.
\<close>

subsection \<open>Numbers\<close>

text \<open>
  A JavaScript number is a binary64 value. It is represented by the rational it denotes, and
  every arithmetic result is rounded to the nearest binary64 value, ties to even, with the
  gradual underflow of the format. NaN, the infinities and the sign of zero have no
  representation: coordinates, distances and durations are finite and far from overflow.
\<close>

type_synonym number = rat

definition round_ties_even :: "rat \<Rightarrow> int" where
  "round_ties_even x =
     (let f = \<lfloor>x\<rfloor>; r = x - of_int f
      in if r < 1 / 2 then f else if 1 / 2 < r then f + 1 else if even f then f else f + 1)"

text \<open>The binary exponent of a positive rational: the \<open>k\<close> with \<open>2 ^ k \<le> x < 2 ^ (k + 1)\<close>.\<close>

definition ilog2 :: "rat \<Rightarrow> int" where
  "ilog2 x =
     (if 1 \<le> x then int (floorlog 2 (nat \<lfloor>x\<rfloor>)) - 1
      else - int (floorlog 2 (nat (\<lceil>1 / x\<rceil> - 1))))"

text \<open>Rounding to 53 significant bits; below \<open>2 ^ - 1022\<close> the spacing stays \<open>2 ^ - 1074\<close>.\<close>

definition binary64 :: "rat \<Rightarrow> number" where
  "binary64 x =
     (if x = 0 then 0
      else let e = max (ilog2 \<bar>x\<bar> - 52) (- 1074)
           in of_int (round_ties_even (x / 2 powi e)) * 2 powi e)"

definition number_add :: "number \<Rightarrow> number \<Rightarrow> number" where
  "number_add a b = binary64 (a + b)"

definition number_mul :: "number \<Rightarrow> number \<Rightarrow> number" where
  "number_mul a b = binary64 (a * b)"

definition number_div :: "number \<Rightarrow> number \<Rightarrow> number" where
  "number_div a b = binary64 (a / b)"

text \<open>
  The representation has no infinity. The sum of two doubles is a finite double exactly when
  its magnitude stays below \<open>2 ^ 1024 - 2 ^ 970\<close>, half a unit in the last place above the
  largest double; what is stated about a sum that the program computes carries this
  condition.
\<close>

definition sum_finite :: "number \<Rightarrow> number \<Rightarrow> bool" where
  "sum_finite a b \<longleftrightarrow> \<bar>a + b\<bar> < 2 ^ 1024 - 2 ^ 970"

text \<open>\<^verbatim>\<open>Math.floor\<close>, and \<^verbatim>\<open>Math.round\<close>, which rounds a tie towards plus infinity.\<close>

definition Math_floor :: "number \<Rightarrow> int" where
  "Math_floor x = \<lfloor>x\<rfloor>"

definition Math_round :: "number \<Rightarrow> int" where
  "Math_round x = \<lfloor>x + 1 / 2\<rfloor>"

subsection \<open>Numbers as text\<close>

text \<open>
  What the module reads from its surroundings: the API key of the process environment
  (\<open>None\<close> is \<^verbatim>\<open>undefined\<close>), and the engine's \<^verbatim>\<open>Number::toString\<close> on the values
  whose digits are not computed here (a value that is not an integer, or one of magnitude
  \<open>10 ^ 21\<close> and above, which prints in exponent notation).
\<close>

record runtime =
  ORS_API_KEY :: "string option"
  Number_toString_engine :: "number \<Rightarrow> string"

definition digit_char :: "nat \<Rightarrow> char" where
  "digit_char d = ''0123456789'' ! d"

fun digits :: "nat \<Rightarrow> string" where
  "digits n = (if n < 10 then [digit_char n] else digits (n div 10) @ [digit_char (n mod 10)])"

declare digits.simps [simp del]

text \<open>The coercion of a number to a string, as \<^verbatim>\<open>Math.round(x) + " min"\<close> performs it.\<close>

definition Number_toString :: "runtime \<Rightarrow> number \<Rightarrow> string" where
  "Number_toString rt x =
     (if of_int \<lfloor>x\<rfloor> = x \<and> \<bar>x\<bar> < 10 ^ 21
      then (if x < 0 then ''-'' else '''') @ digits (nat \<bar>\<lfloor>x\<rfloor>\<bar>)
      else Number_toString_engine rt x)"

text \<open>
  \<^verbatim>\<open>Number.prototype.toFixed\<close> with \<open>f\<close> fraction digits (\<open>f \<le> 100\<close>): the integer \<open>n\<close>
  nearest to \<open>x * 10 ^ f\<close>, the larger one on a tie, printed with a point before its last
  \<open>f\<close> digits and padded with zeros on the left up to \<open>f + 1\<close> digits.
\<close>

definition toFixed :: "runtime \<Rightarrow> number \<Rightarrow> nat \<Rightarrow> string" where
  "toFixed rt x f =
     (let s = (if x < 0 then ''-'' else ''''); y = \<bar>x\<bar>
      in if 10 ^ 21 \<le> y then s @ Number_toString rt y
         else
           let n = nat \<lfloor>y * 10 ^ f + 1 / 2\<rfloor>;
               m = digits n;
               m0 = (if length m \<le> f then replicate (f + 1 - length m) CHR ''0'' @ m else m);
               k = length m0
           in s @ (if f \<noteq> 0 then take (k - f) m0 @ ''.'' @ drop (k - f) m0 else m))"

subsection \<open>Data\<close>

record coordinate =
  latitude :: number
  longitude :: number

record Region = coordinate +
  latitudeDelta :: number
  longitudeDelta :: number

text \<open>
  A position on the wire is the array \<^verbatim>\<open>[lon, lat]\<close>; only its entries 0 and 1 are ever
  written or read, so it is the pair of them.
\<close>

type_synonym position = "number \<times> number"

text \<open>
  One element of \<^verbatim>\<open>response.data.features\<close>: \<^verbatim>\<open>geometry.coordinates\<close>, and
  \<^verbatim>\<open>properties.summary\<close> with its distance in metres and its duration in seconds.
\<close>

record feature =
  geometry_coordinates :: "position list"
  summary_distance :: number
  summary_duration :: number

type_synonym response = "feature list"

text \<open>One call of \<^verbatim>\<open>axios.post\<close>; \<open>signal\<close> is the address of the controller.\<close>

record request =
  url :: string
  coordinates :: "position list"
  preference :: "string option"
  geometry_simplify :: "bool option"
  extra_info :: "string list option"
  Authorization :: string
  Content_Type :: string
  signal :: "nat option"

record js_error =
  error_name :: string
  error_code :: "string option"

datatype console_call =
    Console_error string
  | Console_warn string
  | Console_log string js_error

text \<open>
  The state of the component: its \<^verbatim>\<open>useState\<close> cells and \<^verbatim>\<open>useRef\<close> cells, then what it
  does to its surroundings. \<open>controllers\<close> is the store of the \<^verbatim>\<open>AbortController\<close> objects
  allocated so far (the address is the index, the value is \<^verbatim>\<open>signal.aborted\<close>); \<open>posts\<close>
  lists the requests handed to \<^verbatim>\<open>axios.post\<close>, oldest first. Calls on the map view
  (\<^verbatim>\<open>fitToCoordinates\<close>, \<^verbatim>\<open>animateToRegion\<close>) change none of these cells and are left out.
\<close>

record home =
  region :: "Region option"
  routeCoords :: "coordinate list"
  requestCount :: nat
  lastRequestTime :: int
  cancelToken :: "nat option"
  startPoint :: "coordinate option"
  endPoint :: "coordinate option"
  distance :: "string option"
  duration :: "string option"
  userLocation :: "coordinate option"
  controllers :: "bool list"
  posts :: "request list"
  console :: "console_call list"

definition initial :: home where
  "initial =
     \<lparr>region = None, routeCoords = [], requestCount = 0, lastRequestTime = 0,
      cancelToken = None, startPoint = None, endPoint = None, distance = None,
      duration = None, userLocation = None, controllers = [], posts = [], console = []\<rparr>"

datatype revision = Throttled | Cancelling

subsection \<open>Constants\<close>

definition DAILY_QUOTA :: number where
  "DAILY_QUOTA = 2000"

definition SAFETY_LIMIT :: nat where
  "SAFETY_LIMIT = nat (Math_floor (number_mul DAILY_QUOTA (75 / 100)))"

definition REQUEST_INTERVAL_MS :: int where
  "REQUEST_INTERVAL_MS = 15000"

definition DISABLE_QUOTA_GUARD :: bool where
  "DISABLE_QUOTA_GUARD = False"

definition directions_url :: string where
  "directions_url = ''https://api.openrouteservice.org/v2/directions/driving-car/geojson''"

subsection \<open>Requesting a route\<close>

text \<open>\<^verbatim>\<open>!ORS_API_KEY\<close>: the key is \<^verbatim>\<open>undefined\<close> or the empty string.\<close>

definition key_missing :: "runtime \<Rightarrow> bool" where
  "key_missing rt = (case ORS_API_KEY rt of None \<Rightarrow> True | Some k \<Rightarrow> k = [])"

text \<open>
  The function returns nothing in the source; the decision names the \<^verbatim>\<open>return\<close> it left
  by, or that it went on to \<^verbatim>\<open>axios.post\<close>.
\<close>

datatype decision = MissingCredential | RejectedTooSoon | RejectedQuotaExceeded | Admitted

text \<open>The body \<^verbatim>\<open>coordinates: [[startLng, startLat], [endLng, endLat]]\<close>.\<close>

definition request_coordinates :: "number \<Rightarrow> number \<Rightarrow> number \<Rightarrow> number \<Rightarrow> position list" where
  "request_coordinates startLat startLng endLat endLng = [(startLng, startLat), (endLng, endLat)]"

text \<open>The map over the geometry: \<^verbatim>\<open>(c) => ({ latitude: c[1], longitude: c[0] })\<close>.\<close>

definition decode_position :: "position \<Rightarrow> coordinate" where
  "decode_position c = \<lparr>latitude = snd c, longitude = fst c\<rparr>"

text \<open>First revision, lines 96 to 119: the part of the function before the \<^verbatim>\<open>await\<close>.\<close>

definition fetchRouteFromPoints_throttled ::
  "runtime \<Rightarrow> int \<Rightarrow> number \<Rightarrow> number \<Rightarrow> number \<Rightarrow> number \<Rightarrow> home \<Rightarrow> decision \<times> home" where
  "fetchRouteFromPoints_throttled rt now startLat startLng endLat endLng s =
     (if key_missing rt
      then (MissingCredential, s\<lparr>console := console s @ [Console_error ''ORS API key missing'']\<rparr>)
      else if now - lastRequestTime s < REQUEST_INTERVAL_MS
      then (RejectedTooSoon, s)
      else if \<not> DISABLE_QUOTA_GUARD \<and> SAFETY_LIMIT \<le> requestCount s
      then (RejectedQuotaExceeded,
            s\<lparr>console := console s @ [Console_warn ''75% quota reached. Calls blocked.'']\<rparr>)
      else (Admitted,
            s\<lparr>lastRequestTime := now,
              requestCount := requestCount s + 1,
              posts := posts s @
                [\<lparr>url = directions_url,
                  coordinates = request_coordinates startLat startLng endLat endLng,
                  preference = None, geometry_simplify = None, extra_info = None,
                  Authorization = the (ORS_API_KEY rt),
                  Content_Type = ''application/json'',
                  signal = None\<rparr>]\<rparr>))"

text \<open>
  Second revision, lines 592 to 639. \<^verbatim>\<open>cancelTokenRef.current\<close> always holds the address of
  a controller that was allocated, so the update of the store is in range.
\<close>

definition abort_current :: "home \<Rightarrow> home" where
  "abort_current s =
     (case cancelToken s of
        None \<Rightarrow> s
      | Some c \<Rightarrow> s\<lparr>controllers := (controllers s)[c := True]\<rparr>)"

definition fetchRouteFromPoints_cancelling ::
  "runtime \<Rightarrow> number \<Rightarrow> number \<Rightarrow> number \<Rightarrow> number \<Rightarrow> home \<Rightarrow> decision \<times> home" where
  "fetchRouteFromPoints_cancelling rt startLat startLng endLat endLng s =
     (if key_missing rt
      then (MissingCredential, s\<lparr>console := console s @ [Console_error ''ORS API key missing'']\<rparr>)
      else
        let s1 = abort_current s
        in if \<not> DISABLE_QUOTA_GUARD \<and> SAFETY_LIMIT \<le> requestCount s1
           then (RejectedQuotaExceeded,
                 s1\<lparr>console := console s1 @ [Console_warn ''75% quota reached. Calls blocked.'']\<rparr>)
           else
             let controller = length (controllers s1)
             in (Admitted,
                 s1\<lparr>controllers := controllers s1 @ [False],
                    cancelToken := Some controller,
                    requestCount := requestCount s1 + 1,
                    posts := posts s1 @
                      [\<lparr>url = directions_url,
                        coordinates = request_coordinates startLat startLng endLat endLng,
                        preference = Some ''fastest'',
                        geometry_simplify = Some False,
                        extra_info = Some [''waytype'', ''surface''],
                        Authorization = the (ORS_API_KEY rt),
                        Content_Type = ''application/json'',
                        signal = Some controller\<rparr>]\<rparr>))"

definition fetchRouteFromPoints ::
  "revision \<Rightarrow> runtime \<Rightarrow> int \<Rightarrow> number \<Rightarrow> number \<Rightarrow> number \<Rightarrow> number \<Rightarrow> home \<Rightarrow> decision \<times> home" where
  "fetchRouteFromPoints rv rt now startLat startLng endLat endLng s =
     (case rv of
        Throttled \<Rightarrow> fetchRouteFromPoints_throttled rt now startLat startLng endLat endLng s
      | Cancelling \<Rightarrow> fetchRouteFromPoints_cancelling rt startLat startLng endLat endLng s)"

subsection \<open>When the request completes\<close>

definition display_distance :: "runtime \<Rightarrow> number \<Rightarrow> string" where
  "display_distance rt d = toFixed rt (number_div d 1000) 2 @ '' km''"

definition display_duration :: "runtime \<Rightarrow> number \<Rightarrow> string" where
  "display_duration rt d = Number_toString rt (of_int (Math_round (number_div d 60))) @ '' min''"

text \<open>
  Reading \<^verbatim>\<open>feature.geometry\<close> of \<^verbatim>\<open>features[0]\<close> throws a \<^verbatim>\<open>TypeError\<close> when the array
  is empty; the \<^verbatim>\<open>catch\<close> of the same \<^verbatim>\<open>try\<close> receives it.
\<close>

definition type_error :: js_error where
  "type_error = \<lparr>error_name = ''TypeError'', error_code = None\<rparr>"

definition midpoint :: "coordinate \<Rightarrow> coordinate \<Rightarrow> coordinate" where
  "midpoint prev point =
     \<lparr>latitude = number_div (number_add (latitude prev) (latitude point)) 2,
      longitude = number_div (number_add (longitude prev) (longitude point)) 2\<rparr>"

text \<open>Lines 648 to 662: \<^verbatim>\<open>coords.flatMap((point, index) => ...)\<close>.\<close>

definition smoothCoords :: "coordinate list \<Rightarrow> coordinate list" where
  "smoothCoords coords =
     concat (map (\<lambda>index.
        let point = coords ! index
        in if index = 0 then [point]
           else let prev = coords ! (index - 1) in [midpoint prev point, point])
      [0..<length coords])"

definition fetch_resolved_throttled :: "runtime \<Rightarrow> response \<Rightarrow> home \<Rightarrow> home" where
  "fetch_resolved_throttled rt features s =
     (case features of
        [] \<Rightarrow> s\<lparr>console := console s @ [Console_log ''Route fetch failed:'' type_error]\<rparr>
      | feature # _ \<Rightarrow>
          let coords = map decode_position (geometry_coordinates feature)
          in s\<lparr>distance := Some (display_distance rt (summary_distance feature)),
               duration := Some (display_duration rt (summary_duration feature)),
               routeCoords := coords\<rparr>)"

definition fetch_rejected_throttled :: "js_error \<Rightarrow> home \<Rightarrow> home" where
  "fetch_rejected_throttled error s =
     s\<lparr>console := console s @ [Console_log ''Route fetch failed:'' error]\<rparr>"

definition fetch_resolved_cancelling :: "runtime \<Rightarrow> response \<Rightarrow> home \<Rightarrow> home" where
  "fetch_resolved_cancelling rt features s =
     (case features of
        [] \<Rightarrow> s\<lparr>console := console s @ [Console_log ''Route fetch failed:'' type_error]\<rparr>
      | feature # _ \<Rightarrow>
          let coords = map decode_position (geometry_coordinates feature)
          in s\<lparr>distance := Some (display_distance rt (summary_distance feature)),
               duration := Some (display_duration rt (summary_duration feature)),
               routeCoords := smoothCoords coords\<rparr>)"

definition is_canceled :: "js_error \<Rightarrow> bool" where
  "is_canceled error \<longleftrightarrow>
     error_name error = ''CanceledError'' \<or> error_code error = Some ''ERR_CANCELED''"

definition fetch_rejected_cancelling :: "js_error \<Rightarrow> home \<Rightarrow> home" where
  "fetch_rejected_cancelling error s =
     (if is_canceled error then s
      else s\<lparr>console := console s @ [Console_log ''Route fetch failed:'' error]\<rparr>)"

subsection \<open>The handlers of the screen\<close>

definition handleMapPress :: "revision \<Rightarrow> runtime \<Rightarrow> int \<Rightarrow> coordinate \<Rightarrow> home \<Rightarrow> home" where
  "handleMapPress rv rt now p s =
     (case startPoint s of
        None \<Rightarrow> s\<lparr>startPoint := Some p, routeCoords := [], distance := None, duration := None\<rparr>
      | Some start \<Rightarrow>
          (case endPoint s of
             None \<Rightarrow>
               snd (fetchRouteFromPoints rv rt now
                      (latitude start) (longitude start) (latitude p) (longitude p)
                      (s\<lparr>endPoint := Some p\<rparr>))
           | Some _ \<Rightarrow>
               s\<lparr>startPoint := Some p, endPoint := None, routeCoords := [],
                 distance := None, duration := None\<rparr>))"

definition handleUseMyLocation :: "home \<Rightarrow> home" where
  "handleUseMyLocation s =
     (case userLocation s of
        None \<Rightarrow> s
      | Some u \<Rightarrow>
          s\<lparr>startPoint := Some u, endPoint := None, routeCoords := [],
            distance := None, duration := None\<rparr>)"

definition handleClearAll :: "home \<Rightarrow> home" where
  "handleClearAll s =
     s\<lparr>startPoint := None, endPoint := None, routeCoords := [],
       distance := None, duration := None\<rparr>"

text \<open>
  The callback of \<^verbatim>\<open>Location.watchPositionAsync\<close>; the second revision drops a fix whose
  accuracy is known and worse than 30 metres.
\<close>

definition located :: "coordinate \<Rightarrow> home \<Rightarrow> home" where
  "located c s =
     s\<lparr>userLocation := Some c,
       region := Some \<lparr>latitude = latitude c, longitude = longitude c,
                      latitudeDelta = binary64 (1 / 100), longitudeDelta = binary64 (1 / 100)\<rparr>\<rparr>"

definition watchPosition :: "revision \<Rightarrow> coordinate \<Rightarrow> number option \<Rightarrow> home \<Rightarrow> home" where
  "watchPosition rv c accuracy s =
     (case rv of
        Throttled \<Rightarrow> located c s
      | Cancelling \<Rightarrow>
          (case accuracy of
             None \<Rightarrow> located c s
           | Some a \<Rightarrow> if a \<noteq> 0 \<and> 30 < a then s else located c s))"

subsection \<open>Runs of the screen\<close>

text \<open>
  Everything that can happen to the component. A press carries the tapped coordinate and the
  value \<^verbatim>\<open>Date.now()\<close> would return during it. A completion carries the index in \<open>posts\<close> of
  the request it belongs to; the continuation in the source never looks at its controller,
  so the index plays no part in what the step does.
\<close>

datatype event =
    Press coordinate int
  | LongPress
  | ClearButton
  | UseMyLocationButton
  | Fix coordinate "number option"
  | Resolved nat response
  | Rejected nat js_error

fun step :: "revision \<Rightarrow> runtime \<Rightarrow> event \<Rightarrow> home \<Rightarrow> home" where
  "step rv rt (Press p now) s = handleMapPress rv rt now p s"
| "step rv rt LongPress s = handleClearAll s"
| "step rv rt ClearButton s = handleClearAll s"
| "step rv rt UseMyLocationButton s = handleUseMyLocation s"
| "step rv rt (Fix c accuracy) s = watchPosition rv c accuracy s"
| "step Throttled rt (Resolved i r) s = fetch_resolved_throttled rt r s"
| "step Cancelling rt (Resolved i r) s = fetch_resolved_cancelling rt r s"
| "step Throttled rt (Rejected i e) s = fetch_rejected_throttled e s"
| "step Cancelling rt (Rejected i e) s = fetch_rejected_cancelling e s"

definition run :: "revision \<Rightarrow> runtime \<Rightarrow> event list \<Rightarrow> home \<Rightarrow> home" where
  "run rv rt es s = fold (step rv rt) es s"

subsection \<open>How a request settles\<close>

text \<open>
  Modelled from the spec: the promise of \<^verbatim>\<open>axios.post\<close>, a library outside the repository.
  The specification has the directions client observe the cancel signal and resolve to
  \<open>Canceled\<close> when it was canceled before completion. So the transport either brings a
  response or fails, and the promise settles accordingly, except that a request whose
  signal is aborted settles with the cancellation error (name \<^verbatim>\<open>CanceledError\<close>, code
  \<^verbatim>\<open>ERR_CANCELED\<close>) whatever the transport did. A request of the first revision carries
  no signal.
\<close>

datatype transport = Responded response | Failed js_error

definition canceled_error :: js_error where
  "canceled_error = \<lparr>error_name = ''CanceledError'', error_code = Some ''ERR_CANCELED''\<rparr>"

definition signal_aborted :: "home \<Rightarrow> nat \<Rightarrow> bool" where
  "signal_aborted s i \<longleftrightarrow>
     i < length (posts s) \<and>
     (case signal (posts s ! i) of
        None \<Rightarrow> False
      | Some c \<Rightarrow> c < length (controllers s) \<and> controllers s ! c)"

definition axios_settle :: "home \<Rightarrow> nat \<Rightarrow> transport \<Rightarrow> event" where
  "axios_settle s i outcome =
     (if signal_aborted s i then Rejected i canceled_error
      else (case outcome of Responded r \<Rightarrow> Resolved i r | Failed e \<Rightarrow> Rejected i e))"

subsection \<open>The selection as a state machine\<close>

text \<open>
  The three states of the route session, and its transition function written after the
  specification: a tap in \<open>Idle\<close> chooses the start, a tap in \<open>StartChosen\<close> chooses the
  end, a tap in \<open>RouteReady\<close> starts over from the tapped point, and a clear returns to
  \<open>Idle\<close>.
\<close>

datatype selection = Idle | StartChosen coordinate | RouteReady coordinate coordinate

datatype selection_event = Tap coordinate | Clear

fun spec_transition :: "selection \<Rightarrow> selection_event \<Rightarrow> selection" where
  "spec_transition Idle (Tap p) = StartChosen p"
| "spec_transition (StartChosen a) (Tap p) = RouteReady a p"
| "spec_transition (RouteReady a b) (Tap p) = StartChosen p"
| "spec_transition sel Clear = Idle"

text \<open>The state the two nullable cells of the component stand for.\<close>

definition selection_of :: "home \<Rightarrow> selection" where
  "selection_of s =
     (case startPoint s of
        None \<Rightarrow> Idle
      | Some a \<Rightarrow> (case endPoint s of None \<Rightarrow> StartChosen a | Some b \<Rightarrow> RouteReady a b))"

text \<open>An end point is only ever set after a start point.\<close>

definition end_needs_start :: "home \<Rightarrow> bool" where
  "end_needs_start s \<longleftrightarrow> (startPoint s = None \<longrightarrow> endPoint s = None)"

subsection \<open>The densified polyline, by recursion\<close>

text \<open>
  What \<open>smoothCoords\<close> appends after a point \<open>prev\<close>: before each later point, its midpoint
  with the point before it. It is used to reason about \<open>smoothCoords\<close>, which is shown to
  be \<open>x # smooth_after x xs\<close> on \<open>x # xs\<close>.
\<close>

fun smooth_after :: "coordinate \<Rightarrow> coordinate list \<Rightarrow> coordinate list" where
  "smooth_after prev [] = []"
| "smooth_after prev (point # rest) = midpoint prev point # point # smooth_after point rest"

subsection \<open>Sample data\<close>

definition runtime_with_key :: runtime where
  "runtime_with_key = \<lparr>ORS_API_KEY = Some ''k'', Number_toString_engine = (\<lambda>x. [])\<rparr>"

definition runtime_without_key :: runtime where
  "runtime_without_key = \<lparr>ORS_API_KEY = None, Number_toString_engine = (\<lambda>x. [])\<rparr>"

definition point_A :: coordinate where
  "point_A = \<lparr>latitude = 25 / 2, longitude = 155 / 2\<rparr>"

definition point_B :: coordinate where
  "point_B = \<lparr>latitude = 13, longitude = 155 / 2\<rparr>"

definition point_C :: coordinate where
  "point_C = \<lparr>latitude = 51 / 4, longitude = 309 / 4\<rparr>"

definition point_D :: coordinate where
  "point_D = \<lparr>latitude = 12, longitude = 77\<rparr>"

text \<open>A session that has used up its allowance, its last request sent at the given time.\<close>

definition quota_reached :: home where
  "quota_reached = initial\<lparr>requestCount := 1500, lastRequestTime := 1700000000000\<rparr>"

text \<open>
  \<open>n\<close> routes asked for, one every twenty seconds, each cleared by a long press before the
  next.
\<close>

fun requests :: "nat \<Rightarrow> event list" where
  "requests 0 = []"
| "requests (Suc n) =
     requests n @
       [Press point_A (1700000000000 + 20000 * int n),
        Press point_B (1700000000000 + 20000 * int n),
        LongPress]"

text \<open>Two routes asked for within three seconds: taps on A, B, then C, D.\<close>

definition superseding_presses :: "event list" where
  "superseding_presses =
     [Press point_A 1700000000000, Press point_B 1700000001000,
      Press point_C 1700000002000, Press point_D 1700000003000]"

text \<open>The doubles nearest 12.97 and 12.98, as latitudes.\<close>

definition point_P :: coordinate where
  "point_P = \<lparr>latitude = 7301460895874417 / 562949953421312, longitude = 155 / 2\<rparr>"

definition point_Q :: coordinate where
  "point_Q = \<lparr>latitude = 3653545197704315 / 281474976710656, longitude = 155 / 2\<rparr>"

text \<open>
  Two routes asked for nineteen seconds apart, the first still without its response: taps
  on A, B, then C, D.
\<close>

definition unhurried_presses :: "event list" where
  "unhurried_presses =
     [Press point_A 1700000000000, Press point_B 1700000001000,
      Press point_C 1700000002000, Press point_D 1700000020000]"

definition late_response :: response where
  "late_response =
     [\<lparr>geometry_coordinates = [(155 / 2, 25 / 2)],
       summary_distance = 12345, summary_duration = 1800\<rparr>]"


subsection \<open>Facts about the numbers\<close>

lemma round_ties_even_eqI:
  assumes "\<bar>x - of_int n\<bar> < 1 / 2"
  shows "round_ties_even x = n"
proof -
  consider (same) "\<lfloor>x\<rfloor> = n" | (below) "\<lfloor>x\<rfloor> = n - 1"
    using assms by linarith
  then show ?thesis
  proof cases
    case same
    have "x - of_int \<lfloor>x\<rfloor> < 1 / 2" using assms unfolding same by linarith
    then show ?thesis unfolding round_ties_even_def Let_def using same by simp
  next
    case below
    then have "x - of_int \<lfloor>x\<rfloor> = x - of_int n + 1" by simp
    moreover have "- (1 / 2) < x - of_int n" using assms by linarith
    ultimately have "1 / 2 < x - of_int \<lfloor>x\<rfloor>" by linarith
    then have "\<not> x - of_int \<lfloor>x\<rfloor> < 1 / 2" by linarith
    with \<open>1 / 2 < x - of_int \<lfloor>x\<rfloor>\<close> show ?thesis
      unfolding round_ties_even_def Let_def using below by simp
  qed
qed

lemma of_nat_two_power_bounds:
  assumes "2 ^ (b - 1) \<le> n" "n < 2 ^ b"
  shows "(2::rat) ^ (b - 1) \<le> of_nat n" "(of_nat n :: rat) + 1 \<le> 2 ^ b"
proof -
  have "(of_nat (2 ^ (b - 1)) :: rat) \<le> of_nat n" using assms(1) by (simp only: of_nat_le_iff)
  then show "(2::rat) ^ (b - 1) \<le> of_nat n" by simp
  have "n + 1 \<le> 2 ^ b" using assms(2) by simp
  then have "(of_nat (n + 1) :: rat) \<le> of_nat (2 ^ b)" by (simp only: of_nat_le_iff)
  then show "(of_nat n :: rat) + 1 \<le> 2 ^ b" by simp
qed

lemma ilog2_bounds_ge1:
  assumes "1 \<le> x"
  shows "2 powi ilog2 x \<le> x \<and> x < 2 powi (ilog2 x + 1)"
proof -
  define n where "n = nat \<lfloor>x\<rfloor>"
  define b where "b = floorlog 2 n"
  have "1 \<le> \<lfloor>x\<rfloor>" using assms by linarith
  then have n: "0 < n" "of_nat n \<le> x" "x < of_nat n + 1"
    unfolding n_def by (simp_all del: of_nat_nat add: of_nat_nat) linarith+
  have fb: "2 ^ (b - 1) \<le> n" "n < 2 ^ b"
    using floorlog_bounds [of n 2] n(1) unfolding b_def by simp_all
  have bpos: "0 < b" using fb(2) n(1) by (cases b) simp_all
  have il: "ilog2 x = int b - 1" using assms by (simp add: ilog2_def b_def n_def)
  have p1: "(2::rat) powi (int b - 1) = 2 ^ (b - 1)"
    using bpos by (simp add: power_int_def nat_diff_distrib)
  have p2: "(2::rat) powi (int b - 1 + 1) = 2 ^ b" by simp
  note pw = of_nat_two_power_bounds [OF fb]
  have lo: "(2::rat) ^ (b - 1) \<le> x" using pw(1) n(2) by (rule order_trans)
  have hi: "x < 2 ^ b" using n(3) pw(2) by (rule less_le_trans)
  show ?thesis unfolding il p1 p2 using lo hi by (rule conjI)
qed

lemma ilog2_bounds_lt1:
  assumes "0 < x" "x < 1"
  shows "2 powi ilog2 x \<le> x \<and> x < 2 powi (ilog2 x + 1)"
proof -
  define y where "y = 1 / x"
  define m where "m = nat (\<lceil>y\<rceil> - 1)"
  define b where "b = floorlog 2 m"
  have y1: "1 < y" using assms by (simp add: y_def)
  have c: "2 \<le> \<lceil>y\<rceil>" using y1 by linarith
  then have m: "0 < m" "of_nat m < y" "y \<le> of_nat m + 1"
    unfolding m_def by (simp_all del: of_nat_nat add: of_nat_nat) linarith+
  have fb: "2 ^ (b - 1) \<le> m" "m < 2 ^ b"
    using floorlog_bounds [of m 2] m(1) unfolding b_def by simp_all
  have bpos: "0 < b" using fb(2) m(1) by (cases b) simp_all
  have il: "ilog2 x = - int b" using assms by (simp add: ilog2_def b_def m_def y_def)
  have p1: "(2::rat) powi (- int b) = 1 / 2 ^ b"
    by (simp add: power_int_minus_divide)
  have p2: "(2::rat) powi (- int b + 1) = 1 / 2 ^ (b - 1)"
  proof -
    have "- int b + 1 = - int (b - 1)" using bpos by simp
    then show ?thesis by (simp only: power_int_minus_divide power_int_of_nat)
  qed
  note pw = of_nat_two_power_bounds [OF fb]
  have x: "x = 1 / y" using assms by (simp add: y_def)
  have "y \<le> 2 ^ b" using m(3) pw(2) by (rule order_trans)
  then have "1 / 2 ^ b \<le> 1 / y"
    using y1 by (intro divide_left_mono) simp_all
  moreover have "1 / y < 1 / 2 ^ (b - 1)"
  proof -
    have "(2::rat) ^ (b - 1) < y" using pw(1) m(2) by (rule le_less_trans)
    moreover have "(0::rat) < 2 ^ (b - 1)" by simp
    moreover have "0 < y" using y1 by simp
    ultimately show ?thesis by (intro divide_strict_left_mono mult_pos_pos) simp_all
  qed
  ultimately have "1 / 2 ^ b \<le> x" "x < 1 / 2 ^ (b - 1)" unfolding x by simp_all
  then show ?thesis unfolding il p1 p2 by (rule conjI)
qed

lemma ilog2_bounds:
  assumes "0 < x"
  shows "2 powi ilog2 x \<le> x \<and> x < 2 powi (ilog2 x + 1)"
  using assms ilog2_bounds_ge1 [of x] ilog2_bounds_lt1 [of x] by (cases "1 \<le> x") simp_all

lemma ilog2_eqI:
  assumes "2 powi k \<le> x" "x < 2 powi (k + 1)"
  shows "ilog2 x = k"
proof -
  have "(0::rat) < 2 powi k" by simp
  then have pos: "0 < x" using assms(1) by (rule less_le_trans)
  note b = ilog2_bounds [OF pos]
  have "(2::rat) powi k < 2 powi (ilog2 x + 1)" using assms(1) b by simp
  then have 1: "k < ilog2 x + 1"
    by (metis power_int_increasing not_less one_le_numeral leD)
  have "(2::rat) powi ilog2 x < 2 powi (k + 1)" using assms(2) b by simp
  then have 2: "ilog2 x < k + 1"
    by (metis power_int_increasing not_less one_le_numeral leD)
  from 1 2 show ?thesis by simp
qed

text \<open>
  A certificate for one rounding: the exponent \<open>k\<close> of \<open>x\<close> and the integer nearest to the
  scaled value.
\<close>

lemma binary64_eqI:
  assumes "2 powi k \<le> \<bar>x\<bar>" "\<bar>x\<bar> < 2 powi (k + 1)"
    and "e = max (k - 52) (- 1074)"
    and "\<bar>x / 2 powi e - of_int n\<bar> < 1 / 2"
  shows "binary64 x = of_int n * 2 powi e"
proof -
  have "(0::rat) < 2 powi k" by simp
  then have "0 < \<bar>x\<bar>" using assms(1) by (rule less_le_trans)
  then have "x \<noteq> 0" by simp
  moreover have "ilog2 \<bar>x\<bar> = k" using assms(1,2) by (rule ilog2_eqI)
  moreover have "round_ties_even (x / 2 powi e) = n" using assms(4) by (rule round_ties_even_eqI)
  ultimately show ?thesis using assms(3) by (simp add: binary64_def Let_def)
qed

lemma round_ties_even_tieI:
  assumes "x = of_int f + 1 / 2"
  shows "round_ties_even x = (if even f then f else f + 1)"
proof -
  have fl: "\<lfloor>x\<rfloor> = f" unfolding assms by linarith
  have r: "x - of_int f = 1 / 2" unfolding assms by simp
  show ?thesis unfolding round_ties_even_def Let_def fl r by simp
qed

lemma binary64_tieI:
  assumes "2 powi k \<le> \<bar>x\<bar>" "\<bar>x\<bar> < 2 powi (k + 1)"
    and "e = max (k - 52) (- 1074)"
    and "x / 2 powi e = of_int f + 1 / 2"
  shows "binary64 x = of_int (if even f then f else f + 1) * 2 powi e"
proof -
  have "(0::rat) < 2 powi k" by simp
  then have "0 < \<bar>x\<bar>" using assms(1) by (rule less_le_trans)
  then have "x \<noteq> 0" by simp
  moreover have "ilog2 \<bar>x\<bar> = k" using assms(1,2) by (rule ilog2_eqI)
  moreover have "round_ties_even (x / 2 powi e) = (if even f then f else f + 1)"
    using assms(4) by (rule round_ties_even_tieI)
  ultimately show ?thesis using assms(3) by (simp add: binary64_def Let_def)
qed

lemma binary64_51_2: "binary64 (51 / 2) = 51 / 2"
proof -
  have "binary64 (51 / 2) = of_int 7177611906121728 * 2 powi (- 48)"
    by (rule binary64_eqI [where k = 4]) simp_all
  then show ?thesis by simp
qed

lemma binary64_51_4: "binary64 (51 / 4) = 51 / 4"
proof -
  have "binary64 (51 / 4) = of_int 7177611906121728 * 2 powi (- 49)"
    by (rule binary64_eqI [where k = 3]) simp_all
  then show ?thesis by simp
qed

lemma binary64_155: "binary64 155 = 155"
proof -
  have "binary64 155 = of_int 5453577673768960 * 2 powi (- 45)"
    by (rule binary64_eqI [where k = 7]) simp_all
  then show ?thesis by simp
qed

lemma binary64_155_2: "binary64 (155 / 2) = 155 / 2"
proof -
  have "binary64 (155 / 2) = of_int 5453577673768960 * 2 powi (- 46)"
    by (rule binary64_eqI [where k = 6]) simp_all
  then show ?thesis by simp
qed

lemma binary64_half:
  assumes "2 powi (- 1021) \<le> \<bar>x\<bar>"
  shows "binary64 (x / 2) = binary64 x / 2"
proof -
  define k where "k = ilog2 \<bar>x\<bar>"
  have "(0::rat) < 2 powi (- 1021)" by simp
  then have pos: "0 < \<bar>x\<bar>" using assms by (rule less_le_trans)
  then have x0: "x \<noteq> 0" by simp
  from ilog2_bounds [OF pos] have b: "2 powi k \<le> \<bar>x\<bar>" "\<bar>x\<bar> < 2 powi (k + 1)"
    by (simp_all add: k_def)
  have "(2::rat) powi (- 1021) < 2 powi (k + 1)" using assms b(2) by (rule le_less_trans)
  then have "- 1021 < k + 1"
    by (metis power_int_increasing not_less one_le_numeral leD)
  then have k: "- 1021 \<le> k" by simp
  have p: "(2::rat) powi (k - 1 + 1) = 2 powi k" by simp
  have q: "(2::rat) powi k = 2 powi (k - 1) * 2"
    using power_int_add [of "2::rat" "k - 1" 1] by simp
  have "ilog2 \<bar>x / 2\<bar> = k - 1"
  proof (rule ilog2_eqI)
    show "2 powi (k - 1) \<le> \<bar>x / 2\<bar>" using b(1) unfolding q by simp
    show "\<bar>x / 2\<bar> < 2 powi (k - 1 + 1)" using b(2) unfolding p
      using power_int_add [of "2::rat" k 1] by simp
  qed
  then have e2: "max (ilog2 \<bar>x / 2\<bar> - 52) (- 1074) = k - 53" using k by simp
  have e1: "max (ilog2 \<bar>x\<bar> - 52) (- 1074) = k - 52" using k by (simp add: k_def)
  have r: "(2::rat) powi (k - 52) = 2 powi (k - 53) * 2"
    using power_int_add [of "2::rat" "k - 53" 1] by simp
  have s: "x / 2 / 2 powi (k - 53) = x / 2 powi (k - 52)"
    unfolding r by simp
  have x2: "x / 2 \<noteq> 0" using x0 by simp
  have L: "binary64 (x / 2) =
      of_int (round_ties_even (x / 2 / 2 powi (k - 53))) * 2 powi (k - 53)"
    unfolding binary64_def Let_def e2 using x2 by (simp only: if_False)
  have R: "binary64 x = of_int (round_ties_even (x / 2 powi (k - 52))) * 2 powi (k - 52)"
    unfolding binary64_def Let_def e1 using x0 by (simp only: if_False)
  show ?thesis unfolding L R s unfolding r by simp
qed

text \<open>The three roundings the constants and the scenario of the specification need.\<close>

lemma binary64_1500: "binary64 1500 = 1500"
proof -
  have "binary64 1500 = of_int 6597069766656000 * 2 powi (- 42)"
    by (rule binary64_eqI [where k = 10]) simp_all
  then show ?thesis by simp
qed

lemma binary64_12345_div_1000: "binary64 (2469 / 200) = 6949617174986097 / 562949953421312"
proof -
  have "binary64 (2469 / 200) = of_int 6949617174986097 * 2 powi (- 49)"
    by (rule binary64_eqI [where k = 3]) simp_all
  then show ?thesis by simp
qed

lemma binary64_30: "binary64 30 = 30"
proof -
  have "binary64 30 = of_int 8444249301319680 * 2 powi (- 48)"
    by (rule binary64_eqI [where k = 4]) simp_all
  then show ?thesis by simp
qed

lemma SAFETY_LIMIT_eq: "SAFETY_LIMIT = 1500"
  by (simp add: SAFETY_LIMIT_def DAILY_QUOTA_def number_mul_def Math_floor_def binary64_1500)

lemma digits_small: "n < 10 \<Longrightarrow> digits n = [digit_char n]"
  by (simp add: digits.simps [of n])

lemma digits_large: "10 \<le> n \<Longrightarrow> digits n = digits (n div 10) @ [digit_char (n mod 10)]"
  by (simp add: digits.simps [of n])

lemma Math_round_of_int: "Math_round (of_int n) = n"
  unfolding Math_round_def by linarith

lemma Number_toString_of_nat:
  assumes "n < 10 ^ 21"
  shows "Number_toString rt (of_nat n) = digits n"
proof -
  have "(of_nat n :: rat) < of_nat (10 ^ 21)" using assms by (simp only: of_nat_less_iff)
  then have "\<bar>of_nat n :: rat\<bar> < 10 ^ 21" by simp
  then show ?thesis by (simp add: Number_toString_def)
qed

lemma toFixed_eqI:
  assumes "0 \<le> x" "x < 10 ^ 21"
    and "of_nat n \<le> x * 10 ^ f + 1 / 2" "x * 10 ^ f + 1 / 2 < of_nat n + 1"
    and "digits n = m" "f < length m" "f \<noteq> 0"
  shows "toFixed rt x f = take (length m - f) m @ ''.'' @ drop (length m - f) m"
proof -
  have "\<lfloor>x * 10 ^ f + 1 / 2\<rfloor> = int n"
    using assms(3,4) by (simp add: floor_eq_iff)
  then have n: "nat \<lfloor>\<bar>x\<bar> * 10 ^ f + 1 / 2\<rfloor> = n"
    using assms(1) by simp
  have "\<not> x < 0" "\<not> 10 ^ 21 \<le> \<bar>x\<bar>" using assms(1,2) by simp_all
  then show ?thesis
    unfolding toFixed_def Let_def n assms(5) using assms(6,7) by simp
qed

lemma digits_1235: "digits 1235 = ''1235''"
  by (simp add: digits_small digits_large digit_char_def)

lemma digits_30: "digits 30 = ''30''"
  by (simp add: digits_small digits_large digit_char_def)

lemma display_distance_12345: "display_distance rt 12345 = ''12.35 km''"
proof -
  have "toFixed rt (6949617174986097 / 562949953421312) 2 =
      take (length ''1235'' - 2) ''1235'' @ ''.'' @ drop (length ''1235'' - 2) ''1235''"
    by (rule toFixed_eqI [where n = 1235]) (simp_all add: digits_1235)
  then show ?thesis
    by (simp add: display_distance_def number_div_def binary64_12345_div_1000)
qed

lemma display_duration_1800: "display_duration rt 1800 = ''30 min''"
proof -
  have "Math_round (of_int 30) = 30" by (rule Math_round_of_int)
  moreover have "Number_toString rt (of_nat 30) = digits 30"
    by (rule Number_toString_of_nat) simp
  ultimately show ?thesis
    by (simp add: display_duration_def number_div_def binary64_30 digits_30)
qed



subsection \<open>Facts about the steps\<close>

lemmas fetch_defs =
  fetchRouteFromPoints_def fetchRouteFromPoints_throttled_def
  fetchRouteFromPoints_cancelling_def abort_current_def Let_def

lemmas handler_defs =
  handleMapPress_def handleUseMyLocation_def handleClearAll_def watchPosition_def located_def
  fetch_resolved_throttled_def fetch_resolved_cancelling_def
  fetch_rejected_throttled_def fetch_rejected_cancelling_def

lemma fetch_blocked:
  assumes "SAFETY_LIMIT \<le> requestCount s"
  shows "requestCount (snd (fetchRouteFromPoints rv rt now a b c d s)) = requestCount s
    \<and> posts (snd (fetchRouteFromPoints rv rt now a b c d s)) = posts s"
  using assms
  by (cases rv) (auto simp: fetch_defs DISABLE_QUOTA_GUARD_def split: option.splits)

lemma step_blocked:
  assumes "SAFETY_LIMIT \<le> requestCount s"
  shows "requestCount (step rv rt e s) = requestCount s \<and> posts (step rv rt e s) = posts s"
proof (cases e)
  case (Press p now)
  show ?thesis
  proof (cases "startPoint s")
    case None
    with Press show ?thesis by (simp add: handleMapPress_def)
  next
    case (Some a)
    show ?thesis
    proof (cases "endPoint s")
      case None
      have "SAFETY_LIMIT \<le> requestCount (s\<lparr>endPoint := Some p\<rparr>)" using assms by simp
      from fetch_blocked [OF this] Press Some None show ?thesis
        by (simp add: handleMapPress_def)
    next
      case (Some b)
      with Press \<open>startPoint s = Some a\<close> show ?thesis by (simp add: handleMapPress_def)
    qed
  qed
next
  case (Resolved i r)
  then show ?thesis by (cases rv; cases r) (simp_all add: handler_defs)
next
  case (Rejected i err)
  then show ?thesis by (cases rv) (simp_all add: handler_defs)
qed (auto simp: handler_defs split: option.splits revision.splits)

lemma run_Nil: "run rv rt [] s = s"
  by (simp add: run_def)

lemma run_Cons: "run rv rt (e # es) s = run rv rt es (step rv rt e s)"
  by (simp add: run_def)

lemma run_blocked:
  assumes "SAFETY_LIMIT \<le> requestCount s"
  shows "requestCount (run rv rt es s) = requestCount s \<and> posts (run rv rt es s) = posts s"
  using assms
proof (induction es arbitrary: s)
  case Nil
  show ?case by (simp add: run_Nil)
next
  case (Cons e es)
  from step_blocked [OF Cons.prems, of rv rt e]
  have 1: "requestCount (step rv rt e s) = requestCount s" "posts (step rv rt e s) = posts s"
    by simp_all
  then have "SAFETY_LIMIT \<le> requestCount (step rv rt e s)" using Cons.prems by simp
  from Cons.IH [OF this] 1 show ?case by (simp add: run_Cons)
qed

lemma fetch_decision_blocked:
  assumes "\<not> key_missing rt" "SAFETY_LIMIT \<le> requestCount s"
  shows "fst (fetchRouteFromPoints rv rt now a b c d s) =
    (if rv = Throttled \<and> now - lastRequestTime s < REQUEST_INTERVAL_MS
     then RejectedTooSoon else RejectedQuotaExceeded)"
  using assms
  by (cases rv) (auto simp: fetch_defs DISABLE_QUOTA_GUARD_def split: option.splits)

lemma fetch_throttled_lastRequestTime:
  "lastRequestTime s \<le> lastRequestTime (snd (fetchRouteFromPoints Throttled rt now a b c d s))"
  by (auto simp: fetch_defs REQUEST_INTERVAL_MS_def)

lemma step_throttled_lastRequestTime:
  "lastRequestTime s \<le> lastRequestTime (step Throttled rt e s)"
proof (cases e)
  case (Press p now)
  show ?thesis
  proof (cases "startPoint s")
    case None
    with Press show ?thesis by (simp add: handleMapPress_def)
  next
    case (Some a)
    show ?thesis
    proof (cases "endPoint s")
      case None
      from fetch_throttled_lastRequestTime [of "s\<lparr>endPoint := Some p\<rparr>"] Press Some None
      show ?thesis by (simp add: handleMapPress_def)
    next
      case (Some b)
      with Press \<open>startPoint s = Some a\<close> show ?thesis by (simp add: handleMapPress_def)
    qed
  qed
next
  case (Resolved i r)
  then show ?thesis by (cases r) (simp_all add: handler_defs)
qed (auto simp: handler_defs split: option.splits)

lemma run_throttled_lastRequestTime:
  "lastRequestTime s \<le> lastRequestTime (run Throttled rt es s)"
proof (induction es arbitrary: s)
  case Nil
  show ?case by (simp add: run_Nil)
next
  case (Cons e es)
  have "lastRequestTime s \<le> lastRequestTime (step Throttled rt e s)"
    by (rule step_throttled_lastRequestTime)
  also have "\<dots> \<le> lastRequestTime (run Throttled rt es (step Throttled rt e s))"
    by (rule Cons.IH)
  finally show ?case by (simp add: run_Cons)
qed


lemma signal_aborted_iff:
  "signal_aborted s i \<longleftrightarrow>
     (\<exists>c. i < length (posts s) \<and> signal (posts s ! i) = Some c
        \<and> c < length (controllers s) \<and> controllers s ! c)"
  by (auto simp: signal_aborted_def split: option.splits)

lemma aborted_stays: "c < length xs \<Longrightarrow> xs ! c \<Longrightarrow> xs[t := True] ! c"
  by (cases "t = c") simp_all

lemma signal_aborted_mono:
  assumes "signal_aborted s i"
    and "length (posts s) \<le> length (posts s')"
    and "\<forall>j<length (posts s). posts s' ! j = posts s ! j"
    and "length (controllers s) \<le> length (controllers s')"
    and "\<forall>c<length (controllers s). controllers s ! c \<longrightarrow> controllers s' ! c"
  shows "signal_aborted s' i"
proof -
  from assms(1) obtain c where c: "i < length (posts s)" "signal (posts s ! i) = Some c"
    "c < length (controllers s)" "controllers s ! c"
    unfolding signal_aborted_iff by blast
  from c(1) assms(2,3) have "i < length (posts s')" "signal (posts s' ! i) = Some c"
    using c(2) by simp_all
  moreover from c(3,4) assms(4,5) have "c < length (controllers s')" "controllers s' ! c"
    by simp_all
  ultimately show ?thesis unfolding signal_aborted_iff by blast
qed

lemma fetch_extends:
  "length (posts s)
      \<le> length (posts (snd (fetchRouteFromPoints rv rt now startLat startLng endLat endLng s)))
   \<and> (\<forall>j<length (posts s).
        posts (snd (fetchRouteFromPoints rv rt now startLat startLng endLat endLng s)) ! j
          = posts s ! j)
   \<and> length (controllers s)
      \<le> length (controllers
          (snd (fetchRouteFromPoints rv rt now startLat startLng endLat endLng s)))
   \<and> (\<forall>c<length (controllers s). controllers s ! c \<longrightarrow>
        controllers (snd (fetchRouteFromPoints rv rt now startLat startLng endLat endLng s)) ! c)"
  by (cases rv) (auto simp: fetch_defs nth_append aborted_stays split: option.splits)

lemma fetch_keeps_aborted:
  assumes "signal_aborted s i"
  shows "signal_aborted (snd (fetchRouteFromPoints rv rt now startLat startLng endLat endLng s)) i"
proof -
  note e = fetch_extends [of s rv rt now startLat startLng endLat endLng]
  show ?thesis
    using assms e [THEN conjunct1] e [THEN conjunct2, THEN conjunct1]
      e [THEN conjunct2, THEN conjunct2, THEN conjunct1]
      e [THEN conjunct2, THEN conjunct2, THEN conjunct2]
    by (rule signal_aborted_mono)
qed

lemma step_keeps_aborted:
  assumes "signal_aborted s i"
  shows "signal_aborted (step rv rt e s) i"
proof (cases e)
  case (Press p now)
  show ?thesis
  proof (cases "startPoint s")
    case None
    with Press assms show ?thesis by (simp add: handleMapPress_def signal_aborted_iff)
  next
    case (Some a)
    show ?thesis
    proof (cases "endPoint s")
      case None
      have "signal_aborted (s\<lparr>endPoint := Some p\<rparr>) i"
        using assms by (simp add: signal_aborted_iff)
      from fetch_keeps_aborted [OF this] Press Some None show ?thesis
        by (simp add: handleMapPress_def)
    next
      case (Some b)
      with Press \<open>startPoint s = Some a\<close> assms show ?thesis
        by (simp add: handleMapPress_def signal_aborted_iff)
    qed
  qed
next
  case (Resolved j r)
  with assms show ?thesis
    by (cases rv; cases r) (simp_all add: handler_defs signal_aborted_iff Let_def)
next
  case (Rejected j err)
  with assms show ?thesis by (cases rv) (simp_all add: handler_defs signal_aborted_iff)
qed (use assms in \<open>auto simp: handler_defs signal_aborted_iff split: option.splits revision.splits\<close>)

lemma run_keeps_aborted:
  assumes "signal_aborted s i"
  shows "signal_aborted (run rv rt es s) i"
  using assms
proof (induction es arbitrary: s)
  case Nil
  then show ?case by (simp add: run_Nil)
next
  case (Cons e es)
  then show ?case using step_keeps_aborted by (simp add: run_Cons)
qed

lemma is_canceled_canceled_error: "is_canceled canceled_error"
  by (simp add: is_canceled_def canceled_error_def)

lemma settle_aborted:
  assumes "signal_aborted s i"
  shows "step Cancelling rt (axios_settle s i outcome) s = s"
  using assms by (simp add: axios_settle_def fetch_rejected_cancelling_def is_canceled_canceled_error)

subsection \<open>Sample data, evaluated\<close>

lemma key_present: "\<not> key_missing runtime_with_key"
  by (simp add: key_missing_def runtime_with_key_def)

lemma key_value: "ORS_API_KEY runtime_with_key = Some [CHR 0x6B]"
  by (simp add: runtime_with_key_def)

lemma key_absent: "key_missing runtime_without_key"
  by (simp add: key_missing_def runtime_without_key_def)

lemma superseded_state:
  "run Cancelling runtime_with_key superseding_presses initial =
     initial\<lparr>startPoint := Some point_C, endPoint := Some point_D,
       requestCount := 2, cancelToken := Some 1, controllers := [True, False],
       posts :=
         [\<lparr>url = directions_url,
           coordinates = [(155 / 2, 25 / 2), (155 / 2, 13)],
           preference = Some ''fastest'', geometry_simplify = Some False,
           extra_info = Some [''waytype'', ''surface''],
           Authorization = ''k'', Content_Type = ''application/json'', signal = Some 0\<rparr>,
          \<lparr>url = directions_url,
           coordinates = [(309 / 4, 51 / 4), (77, 12)],
           preference = Some ''fastest'', geometry_simplify = Some False,
           extra_info = Some [''waytype'', ''surface''],
           Authorization = ''k'', Content_Type = ''application/json'', signal = Some 1\<rparr>]\<rparr>"
  by (simp add: run_def superseding_presses_def initial_def handleMapPress_def fetch_defs
      key_present key_value SAFETY_LIMIT_eq DISABLE_QUOTA_GUARD_def request_coordinates_def
      point_A_def point_B_def point_C_def point_D_def)

lemma unhurried_state:
  "run Throttled runtime_with_key unhurried_presses initial =
     initial\<lparr>startPoint := Some point_C, endPoint := Some point_D,
       requestCount := 2, lastRequestTime := 1700000020000,
       posts :=
         [\<lparr>url = directions_url,
           coordinates = [(155 / 2, 25 / 2), (155 / 2, 13)],
           preference = None, geometry_simplify = None, extra_info = None,
           Authorization = ''k'', Content_Type = ''application/json'', signal = None\<rparr>,
          \<lparr>url = directions_url,
           coordinates = [(309 / 4, 51 / 4), (77, 12)],
           preference = None, geometry_simplify = None, extra_info = None,
           Authorization = ''k'', Content_Type = ''application/json'', signal = None\<rparr>]\<rparr>"
  by (simp add: run_def unhurried_presses_def initial_def handleMapPress_def fetch_defs
      key_present key_value SAFETY_LIMIT_eq DISABLE_QUOTA_GUARD_def request_coordinates_def
      REQUEST_INTERVAL_MS_def point_A_def point_B_def point_C_def point_D_def)

lemma run_append: "run rv rt (es @ fs) s = run rv rt fs (run rv rt es s)"
  by (simp add: run_def)

lemma requests_state:
  assumes "n \<le> 1500"
  shows "requestCount (run Throttled runtime_with_key (requests n) initial) = n
    \<and> lastRequestTime (run Throttled runtime_with_key (requests n) initial)
        = (if n = 0 then 0 else 1700000000000 + 20000 * (int n - 1))
    \<and> startPoint (run Throttled runtime_with_key (requests n) initial) = None
    \<and> endPoint (run Throttled runtime_with_key (requests n) initial) = None"
  using assms
proof (induction n)
  case 0
  show ?case by (simp add: run_Nil initial_def)
next
  case (Suc n)
  define t where "t = run Throttled runtime_with_key (requests n) initial"
  from Suc have ih: "requestCount t = n"
    "lastRequestTime t = (if n = 0 then 0 else 1700000000000 + 20000 * (int n - 1))"
    "startPoint t = None" "endPoint t = None"
    by (simp_all add: t_def)
  have far: "\<not> 1700000000000 + 20000 * int n - lastRequestTime t < REQUEST_INTERVAL_MS"
    by (simp add: ih REQUEST_INTERVAL_MS_def)
  have room: "\<not> SAFETY_LIMIT \<le> requestCount t"
    using Suc.prems by (simp add: ih SAFETY_LIMIT_eq)
  have "run Throttled runtime_with_key (requests (Suc n)) initial =
      step Throttled runtime_with_key LongPress
        (step Throttled runtime_with_key (Press point_B (1700000000000 + 20000 * int n))
          (step Throttled runtime_with_key (Press point_A (1700000000000 + 20000 * int n)) t))"
    by (simp add: run_append run_Cons run_Nil t_def)
  then show ?case
    using ih far room
    by (simp add: handleMapPress_def handleClearAll_def fetch_defs key_present)
qed

subsection \<open>Wire order and display values\<close>

lemma fetchRouteFromPoints_Admitted_posts:
  assumes "fetchRouteFromPoints rv rt now startLat startLng endLat endLng s = (Admitted, s')"
  shows "posts s' \<noteq> [] \<and>
    coordinates (last (posts s')) = request_coordinates startLat startLng endLat endLng"
  using assms
  by (cases rv)
    (auto simp: fetchRouteFromPoints_def fetchRouteFromPoints_throttled_def
      fetchRouteFromPoints_cancelling_def Let_def split: if_splits)

text \<open>
  Claim C8. A coordinate written into the request body as \<^verbatim>\<open>[longitude, latitude]\<close> and read
  back the way the response geometry is read gives the coordinate again, and a wire pair
  read into a coordinate and written back gives the pair again. The same holds of the
  request an admitted call really posts: reading its body back gives the two points of the
  call.
\<close>

theorem coordinate_round_trip:
  "map decode_position
      (request_coordinates (latitude a) (longitude a) (latitude b) (longitude b)) = [a, b]
   \<and> request_coordinates
        (latitude (decode_position w1)) (longitude (decode_position w1))
        (latitude (decode_position w2)) (longitude (decode_position w2)) = [w1, w2]
   \<and> (fetchRouteFromPoints rv rt now (latitude a) (longitude a) (latitude b) (longitude b) s
         = (Admitted, s') \<longrightarrow>
       map decode_position (coordinates (last (posts s'))) = [a, b])"
proof (intro conjI impI)
  show ab: "map decode_position
      (request_coordinates (latitude a) (longitude a) (latitude b) (longitude b)) = [a, b]"
    by (simp add: request_coordinates_def decode_position_def)
  show "request_coordinates
        (latitude (decode_position w1)) (longitude (decode_position w1))
        (latitude (decode_position w2)) (longitude (decode_position w2)) = [w1, w2]"
    by (simp add: request_coordinates_def decode_position_def)
  assume "fetchRouteFromPoints rv rt now (latitude a) (longitude a) (latitude b) (longitude b) s
         = (Admitted, s')"
  then have "coordinates (last (posts s')) =
      request_coordinates (latitude a) (longitude a) (latitude b) (longitude b)"
    by (simp add: fetchRouteFromPoints_Admitted_posts)
  then show "map decode_position (coordinates (last (posts s'))) = [a, b]"
    using ab by simp
qed

theorem coordinate_round_trip_witness:
  "map decode_position
      (request_coordinates (latitude point_A) (longitude point_A)
        (latitude point_B) (longitude point_B)) = [point_A, point_B]
   \<and> fst (fetchRouteFromPoints Throttled runtime_with_key 1700000000000
        (latitude point_A) (longitude point_A) (latitude point_B) (longitude point_B) initial)
      = Admitted
   \<and> map decode_position (coordinates (last (posts
        (snd (fetchRouteFromPoints Throttled runtime_with_key 1700000000000
          (latitude point_A) (longitude point_A) (latitude point_B) (longitude point_B)
          initial))))) = [point_A, point_B]"
proof -
  define s1 where "s1 = snd (fetchRouteFromPoints Throttled runtime_with_key 1700000000000
      (latitude point_A) (longitude point_A) (latitude point_B) (longitude point_B) initial)"
  have adm: "fetchRouteFromPoints Throttled runtime_with_key 1700000000000
      (latitude point_A) (longitude point_A) (latitude point_B) (longitude point_B) initial
      = (Admitted, s1)"
    unfolding s1_def
    by (simp add: fetch_defs key_present SAFETY_LIMIT_eq DISABLE_QUOTA_GUARD_def initial_def
        REQUEST_INTERVAL_MS_def)
  note t = coordinate_round_trip [where a = point_A and b = point_B and rv = Throttled
      and rt = runtime_with_key and now = 1700000000000 and s = initial and s' = s1]
  from t have 1: "map decode_position
      (request_coordinates (latitude point_A) (longitude point_A)
        (latitude point_B) (longitude point_B)) = [point_A, point_B]"
    by blast
  from t adm have 2: "map decode_position (coordinates (last (posts s1))) = [point_A, point_B]"
    by blast
  from adm have 3: "fst (fetchRouteFromPoints Throttled runtime_with_key 1700000000000
      (latitude point_A) (longitude point_A) (latitude point_B) (longitude point_B) initial)
      = Admitted"
    by simp
  from 1 2 3 show ?thesis unfolding s1_def by (intro conjI)
qed

text \<open>
  Claim C9. When the request resolves with a first feature whose summary has distance
  12345 and duration 1800, the screen shows \<^verbatim>\<open>12.35 km\<close> and \<^verbatim>\<open>30 min\<close>, in both
  revisions, whatever the geometry, the other features and the state before. The quotient
  12345 / 1000 is the binary64 value just above 12.345, so two fraction digits give 12.35.
\<close>

theorem display_values_scenario:
  "distance (step rv rt (Resolved i
       (\<lparr>geometry_coordinates = g, summary_distance = 12345, summary_duration = 1800\<rparr> # fs)) s)
     = Some ''12.35 km''
   \<and> duration (step rv rt (Resolved i
       (\<lparr>geometry_coordinates = g, summary_distance = 12345, summary_duration = 1800\<rparr> # fs)) s)
     = Some ''30 min''"
  by (cases rv)
    (simp_all add: fetch_resolved_throttled_def fetch_resolved_cancelling_def Let_def
      display_distance_12345 display_duration_1800)


subsection \<open>Densification\<close>

lemma concat_midpoints:
  "concat (map (\<lambda>i. [midpoint ((p # xs) ! i) (xs ! i), xs ! i]) [0..<length xs])
     = smooth_after p xs"
proof (induction xs arbitrary: p)
  case Nil
  show ?case by simp
next
  case (Cons y ys)
  have "[0..<length (y # ys)] = 0 # map Suc [0..<length ys]"
    unfolding length_Cons map_Suc_upt by (rule upt_conv_Cons) simp
  then show ?case using Cons.IH [of y] by (simp add: comp_def)
qed

lemma smoothCoords_Cons: "smoothCoords (x # xs) = x # smooth_after x xs"
proof -
  have "[0..<length (x # xs)] = 0 # map Suc [0..<length xs]"
    unfolding length_Cons map_Suc_upt by (rule upt_conv_Cons) simp
  then show ?thesis
    using concat_midpoints [of x xs] by (simp add: smoothCoords_def comp_def Let_def)
qed

lemma length_smooth_after: "length (smooth_after p xs) = 2 * length xs"
  by (induction xs arbitrary: p) simp_all

lemma smooth_after_even:
  "k \<le> length xs \<Longrightarrow> (p # smooth_after p xs) ! (2 * k) = (p # xs) ! k"
proof (induction xs arbitrary: p k)
  case Nil
  then show ?case by simp
next
  case (Cons y ys)
  show ?case
  proof (cases k)
    case 0
    then show ?thesis by simp
  next
    case (Suc j)
    with Cons.prems have "j \<le> length ys" by simp
    from Cons.IH [OF this, of y] Suc show ?thesis by simp
  qed
qed

lemma smooth_after_odd:
  "k < length xs \<Longrightarrow>
    (p # smooth_after p xs) ! (2 * k + 1) = midpoint ((p # xs) ! k) ((p # xs) ! (k + 1))"
proof (induction xs arbitrary: p k)
  case Nil
  then show ?case by simp
next
  case (Cons y ys)
  show ?case
  proof (cases k)
    case 0
    then show ?thesis by simp
  next
    case (Suc j)
    with Cons.prems have "j < length ys" by simp
    from Cons.IH [OF this, of y] Suc show ?thesis by simp
  qed
qed

lemma last_smooth_after: "last (p # smooth_after p xs) = last (p # xs)"
  by (induction xs arbitrary: p) simp_all

text \<open>The two latitudes are the doubles nearest 12.97 and 12.98.\<close>

lemma latitude_P: "latitude point_P = binary64 (1297 / 100)"
proof -
  have "binary64 (1297 / 100) = of_int 7301460895874417 * 2 powi (- 49)"
    by (rule binary64_eqI [where k = 3]) simp_all
  then show ?thesis by (simp add: point_P_def)
qed

lemma latitude_Q: "latitude point_Q = binary64 (649 / 50)"
proof -
  have "binary64 (649 / 50) = of_int 7307090395408630 * 2 powi (- 49)"
    by (rule binary64_eqI [where k = 3]) simp_all
  then show ?thesis by (simp add: point_Q_def)
qed

lemma latitude_sum_PQ:
  "number_add (latitude point_P) (latitude point_Q) = 1826068911410381 / 70368744177664"
proof -
  have s: "latitude point_P + latitude point_Q = 14608551291283047 / 562949953421312"
    by (simp add: point_P_def point_Q_def)
  have "binary64 (14608551291283047 / 562949953421312)
      = of_int (if even (7304275645641523::int) then 7304275645641523 else 7304275645641523 + 1)
        * 2 powi (- 48)"
    by (rule binary64_tieI [where k = 4]) simp_all
  then have "binary64 (14608551291283047 / 562949953421312) = 1826068911410381 / 70368744177664"
    by simp
  then show ?thesis unfolding number_add_def s .
qed

lemma latitude_half_PQ:
  "number_div (1826068911410381 / 70368744177664) 2 = 1826068911410381 / 140737488355328"
proof -
  have "binary64 (1826068911410381 / 140737488355328)
      = of_int 7304275645641524 * 2 powi (- 49)"
    by (rule binary64_eqI [where k = 3]) simp_all
  then have "binary64 (1826068911410381 / 140737488355328) = 1826068911410381 / 140737488355328"
    by simp
  then show ?thesis by (simp add: number_div_def)
qed

lemma midpoint_fields:
  "latitude (midpoint p q) = binary64 (binary64 (latitude p + latitude q) / 2)
   \<and> longitude (midpoint p q) = binary64 (binary64 (longitude p + longitude q) / 2)"
  by (simp add: midpoint_def number_add_def number_div_def)

text \<open>
  Claim C7, as stated, fails on the midpoints: the program adds two doubles and halves the
  rounded sum. For the latitudes nearest 12.97 and 12.98 the sum lies midway between two
  doubles and is rounded to the even one, so the latitude of the inserted point is not the
  arithmetic mean of the latitudes of its two neighbours.
\<close>

theorem exact_mean_counterexample:
  "latitude point_P = binary64 (1297 / 100)
   \<and> latitude point_Q = binary64 (649 / 50)
   \<and> smoothCoords [point_P, point_Q] ! 0 = point_P
   \<and> smoothCoords [point_P, point_Q] ! 2 = point_Q
   \<and> latitude (smoothCoords [point_P, point_Q] ! 1) = 1826068911410381 / 140737488355328
   \<and> (latitude (smoothCoords [point_P, point_Q] ! 0)
        + latitude (smoothCoords [point_P, point_Q] ! 2)) / 2
      = 14608551291283047 / 1125899906842624
   \<and> latitude (smoothCoords [point_P, point_Q] ! 1)
      \<noteq> (latitude (smoothCoords [point_P, point_Q] ! 0)
          + latitude (smoothCoords [point_P, point_Q] ! 2)) / 2"
proof -
  have sm: "smoothCoords [point_P, point_Q] = [point_P, midpoint point_P point_Q, point_Q]"
    by (simp add: smoothCoords_Cons)
  have m: "latitude (midpoint point_P point_Q) = 1826068911410381 / 140737488355328"
    by (simp only: midpoint_def coordinate.simps latitude_sum_PQ latitude_half_PQ)
  have mean: "(latitude point_P + latitude point_Q) / 2 = 14608551291283047 / 1125899906842624"
    by (simp add: point_P_def point_Q_def)
  have ne: "(1826068911410381 / 140737488355328 :: rat) \<noteq> 14608551291283047 / 1125899906842624"
    by simp
  show ?thesis
    unfolding sm using latitude_P latitude_Q m mean ne by simp
qed

text \<open>
  Claim C7, amended. On a polyline of \<open>n \<ge> 1\<close> points the densification of lines 648 to 662
  returns \<open>2 * n - 1\<close> points; the first and the last are those of the input; the point at
  each even index \<open>2 * k\<close> is the input point \<open>k\<close>, so the neighbours of the point at the odd
  index \<open>2 * k + 1\<close> are the input points \<open>k\<close> and \<open>k + 1\<close>. Where the sums of their latitudes
  and of their longitudes do not overflow, the latitude and the longitude of the odd point
  are what \<^verbatim>\<open>(a + b) / 2\<close> gives on doubles: the sum rounded to the nearest double, ties to
  even, then halved and rounded. This is the exact arithmetic mean whenever the sum is
  itself a double of magnitude at least \<open>2 ^ - 1021\<close>.
\<close>

theorem smoothCoords_densifies:
  assumes "coords \<noteq> []"
  shows "length (smoothCoords coords) = 2 * length coords - 1
    \<and> hd (smoothCoords coords) = hd coords
    \<and> last (smoothCoords coords) = last coords
    \<and> (\<forall>k<length coords. smoothCoords coords ! (2 * k) = coords ! k)
    \<and> (\<forall>k. k + 1 < length coords \<longrightarrow>
          smoothCoords coords ! (2 * k) = coords ! k
          \<and> smoothCoords coords ! (2 * k + 2) = coords ! (k + 1)
          \<and> (sum_finite (latitude (coords ! k)) (latitude (coords ! (k + 1)))
              \<and> sum_finite (longitude (coords ! k)) (longitude (coords ! (k + 1)))
             \<longrightarrow>
               latitude (smoothCoords coords ! (2 * k + 1)) =
                 binary64 (binary64 (latitude (coords ! k) + latitude (coords ! (k + 1))) / 2)
               \<and> longitude (smoothCoords coords ! (2 * k + 1)) =
                 binary64 (binary64 (longitude (coords ! k) + longitude (coords ! (k + 1))) / 2))
          \<and> (sum_finite (latitude (coords ! k)) (latitude (coords ! (k + 1)))
              \<and> binary64 (latitude (coords ! k) + latitude (coords ! (k + 1)))
                  = latitude (coords ! k) + latitude (coords ! (k + 1))
              \<and> 2 powi (- 1021) \<le> \<bar>latitude (coords ! k) + latitude (coords ! (k + 1))\<bar>
             \<longrightarrow>
               latitude (smoothCoords coords ! (2 * k + 1)) =
                 (latitude (coords ! k) + latitude (coords ! (k + 1))) / 2)
          \<and> (sum_finite (longitude (coords ! k)) (longitude (coords ! (k + 1)))
              \<and> binary64 (longitude (coords ! k) + longitude (coords ! (k + 1)))
                  = longitude (coords ! k) + longitude (coords ! (k + 1))
              \<and> 2 powi (- 1021) \<le> \<bar>longitude (coords ! k) + longitude (coords ! (k + 1))\<bar>
             \<longrightarrow>
               longitude (smoothCoords coords ! (2 * k + 1)) =
                 (longitude (coords ! k) + longitude (coords ! (k + 1))) / 2))"
proof -
  from assms obtain x xs where c: "coords = x # xs" by (cases coords) auto
  have even: "smoothCoords coords ! (2 * k) = coords ! k" if "k < length coords" for k
    using that smooth_after_even [of k xs x] by (simp add: c smoothCoords_Cons)
  have next_even: "smoothCoords coords ! (2 * k + 2) = coords ! (k + 1)"
    if "k + 1 < length coords" for k
    using even [OF that] by simp
  have odd: "smoothCoords coords ! (2 * k + 1) = midpoint (coords ! k) (coords ! (k + 1))"
    if "k + 1 < length coords" for k
  proof -
    from that have k: "k < length xs" by (simp add: c)
    show ?thesis
      using smooth_after_odd [OF k, of x] by (simp add: c smoothCoords_Cons)
  qed
  have fields: "latitude (smoothCoords coords ! (2 * k + 1)) =
        binary64 (binary64 (latitude (coords ! k) + latitude (coords ! (k + 1))) / 2)
      \<and> longitude (smoothCoords coords ! (2 * k + 1)) =
        binary64 (binary64 (longitude (coords ! k) + longitude (coords ! (k + 1))) / 2)"
    if "k + 1 < length coords" for k
    unfolding odd [OF that] by (rule midpoint_fields)
  have lat_exact: "latitude (smoothCoords coords ! (2 * k + 1)) =
      (latitude (coords ! k) + latitude (coords ! (k + 1))) / 2"
    if "k + 1 < length coords"
      and "binary64 (latitude (coords ! k) + latitude (coords ! (k + 1)))
        = latitude (coords ! k) + latitude (coords ! (k + 1))"
      and "2 powi (- 1021) \<le> \<bar>latitude (coords ! k) + latitude (coords ! (k + 1))\<bar>"
    for k
    using fields [OF that(1)] binary64_half [OF that(3)] that(2) by simp
  have lon_exact: "longitude (smoothCoords coords ! (2 * k + 1)) =
      (longitude (coords ! k) + longitude (coords ! (k + 1))) / 2"
    if "k + 1 < length coords"
      and "binary64 (longitude (coords ! k) + longitude (coords ! (k + 1)))
        = longitude (coords ! k) + longitude (coords ! (k + 1))"
      and "2 powi (- 1021) \<le> \<bar>longitude (coords ! k) + longitude (coords ! (k + 1))\<bar>"
    for k
    using fields [OF that(1)] binary64_half [OF that(3)] that(2) by simp
  have len: "length (smoothCoords coords) = 2 * length coords - 1"
    by (simp add: c smoothCoords_Cons length_smooth_after)
  have h: "hd (smoothCoords coords) = hd coords"
    by (simp add: c smoothCoords_Cons)
  have l: "last (smoothCoords coords) = last coords"
    unfolding c smoothCoords_Cons by (rule last_smooth_after)
  have pair: "smoothCoords coords ! (2 * k) = coords ! k
      \<and> smoothCoords coords ! (2 * k + 2) = coords ! (k + 1)"
    if "k + 1 < length coords" for k
    using even [of k] next_even [OF that] that by simp
  from len h l even pair fields lat_exact lon_exact show ?thesis by blast
qed

theorem smoothCoords_densifies_witness:
  "[point_A, point_B] \<noteq> []
   \<and> length (smoothCoords [point_A, point_B]) = 3
   \<and> hd (smoothCoords [point_A, point_B]) = point_A
   \<and> last (smoothCoords [point_A, point_B]) = point_B
   \<and> smoothCoords [point_A, point_B] ! 0 = point_A
   \<and> smoothCoords [point_A, point_B] ! 2 = point_B
   \<and> sum_finite (latitude point_A) (latitude point_B)
   \<and> sum_finite (longitude point_A) (longitude point_B)
   \<and> latitude (smoothCoords [point_A, point_B] ! 1) = 51 / 4
   \<and> longitude (smoothCoords [point_A, point_B] ! 1) = 155 / 2"
proof -
  have ne: "[point_A, point_B] \<noteq> []" by simp
  have fin: "sum_finite (latitude point_A) (latitude point_B)"
    "sum_finite (longitude point_A) (longitude point_B)"
    by (simp_all add: sum_finite_def point_A_def point_B_def)
  note t = smoothCoords_densifies [OF ne]
  from t have len: "length (smoothCoords [point_A, point_B]) = 2 * length [point_A, point_B] - 1"
    and h: "hd (smoothCoords [point_A, point_B]) = hd [point_A, point_B]"
    and l: "last (smoothCoords [point_A, point_B]) = last [point_A, point_B]"
    by blast+
  from t have "0 + 1 < length [point_A, point_B] \<longrightarrow>
      smoothCoords [point_A, point_B] ! (2 * 0) = [point_A, point_B] ! 0
      \<and> smoothCoords [point_A, point_B] ! (2 * 0 + 2) = [point_A, point_B] ! (0 + 1)
      \<and> (sum_finite (latitude ([point_A, point_B] ! 0)) (latitude ([point_A, point_B] ! (0 + 1)))
          \<and> sum_finite (longitude ([point_A, point_B] ! 0))
              (longitude ([point_A, point_B] ! (0 + 1)))
         \<longrightarrow>
           latitude (smoothCoords [point_A, point_B] ! (2 * 0 + 1)) =
             binary64 (binary64 (latitude ([point_A, point_B] ! 0)
               + latitude ([point_A, point_B] ! (0 + 1))) / 2)
           \<and> longitude (smoothCoords [point_A, point_B] ! (2 * 0 + 1)) =
             binary64 (binary64 (longitude ([point_A, point_B] ! 0)
               + longitude ([point_A, point_B] ! (0 + 1))) / 2))"
    by blast
  with fin have o: "smoothCoords [point_A, point_B] ! 0 = point_A"
    "smoothCoords [point_A, point_B] ! 2 = point_B"
    "latitude (smoothCoords [point_A, point_B] ! 1) =
      binary64 (binary64 (latitude point_A + latitude point_B) / 2)"
    "longitude (smoothCoords [point_A, point_B] ! 1) =
      binary64 (binary64 (longitude point_A + longitude point_B) / 2)"
    by (simp_all add: numeral_2_eq_2)
  have la: "binary64 (binary64 (latitude point_A + latitude point_B) / 2) = 51 / 4"
    by (simp add: point_A_def point_B_def binary64_51_2 binary64_51_4)
  have lo: "binary64 (binary64 (longitude point_A + longitude point_B) / 2) = 155 / 2"
    by (simp add: point_A_def point_B_def binary64_155 binary64_155_2)
  from ne len h l o fin la lo show ?thesis by simp
qed

subsection \<open>The quota guard\<close>

text \<open>
  Claim C1, as stated, fails in the first revision: there the spacing check of line 109
  runs before the quota check of line 113. After 1500 admitted requests, one every twenty
  seconds, a call five seconds after the last of them leaves by the spacing check.
\<close>

theorem quota_precedence_counterexample:
  "SAFETY_LIMIT \<le> requestCount (run Throttled runtime_with_key (requests 1500) initial)
   \<and> \<not> key_missing runtime_with_key
   \<and> lastRequestTime (run Throttled runtime_with_key (requests 1500) initial) = 1700029980000
   \<and> fst (fetchRouteFromPoints Throttled runtime_with_key 1700029985000
        (latitude point_A) (longitude point_A) (latitude point_B) (longitude point_B)
        (run Throttled runtime_with_key (requests 1500) initial)) = RejectedTooSoon
   \<and> fst (fetchRouteFromPoints Throttled runtime_with_key 1700029985000
        (latitude point_A) (longitude point_A) (latitude point_B) (longitude point_B)
        (run Throttled runtime_with_key (requests 1500) initial)) \<noteq> RejectedQuotaExceeded"
proof -
  have "(1500::nat) \<le> 1500" by simp
  from requests_state [OF this]
  show ?thesis
    by (simp add: fetch_defs key_present SAFETY_LIMIT_eq REQUEST_INTERVAL_MS_def)
qed

text \<open>
  Claim C1, amended. Once the count has reached the safety limit of 1500, it stays where it
  is through every later event, no request is posted any more, and every later call with a
  key is rejected: in the first revision as \<open>RejectedTooSoon\<close> when it comes less than
  15000 ms after the last admitted request and as \<open>RejectedQuotaExceeded\<close> otherwise, in
  the second revision always as \<open>RejectedQuotaExceeded\<close>.
\<close>

theorem quota_reached_blocks_later_calls:
  assumes "\<not> key_missing rt" and "SAFETY_LIMIT \<le> requestCount s"
  shows "requestCount (run rv rt es s) = requestCount s
    \<and> posts (run rv rt es s) = posts s
    \<and> fst (fetchRouteFromPoints rv rt now startLat startLng endLat endLng (run rv rt es s)) =
        (if rv = Throttled \<and> now - lastRequestTime (run rv rt es s) < REQUEST_INTERVAL_MS
         then RejectedTooSoon else RejectedQuotaExceeded)
    \<and> requestCount
        (snd (fetchRouteFromPoints rv rt now startLat startLng endLat endLng (run rv rt es s)))
        = requestCount s
    \<and> posts
        (snd (fetchRouteFromPoints rv rt now startLat startLng endLat endLng (run rv rt es s)))
        = posts s"
proof -
  note r = run_blocked [OF assms(2), of rv rt es]
  then have lim: "SAFETY_LIMIT \<le> requestCount (run rv rt es s)" using assms(2) by simp
  from fetch_blocked [OF lim, of rv rt now startLat startLng endLat endLng]
    fetch_decision_blocked [OF assms(1) lim] r
  show ?thesis by simp
qed

theorem quota_reached_blocks_later_calls_witness:
  "\<not> key_missing runtime_with_key
   \<and> SAFETY_LIMIT \<le> requestCount quota_reached
   \<and> requestCount (run Throttled runtime_with_key [LongPress, Press point_A 1700000020000]
        quota_reached) = 1500
   \<and> fst (fetchRouteFromPoints Throttled runtime_with_key 1700000030000
        (latitude point_A) (longitude point_A) (latitude point_B) (longitude point_B)
        (run Throttled runtime_with_key [LongPress, Press point_A 1700000020000] quota_reached))
      = RejectedQuotaExceeded"
proof -
  have lim: "SAFETY_LIMIT \<le> requestCount quota_reached"
    by (simp add: SAFETY_LIMIT_eq quota_reached_def)
  have t: "lastRequestTime
      (run Throttled runtime_with_key [LongPress, Press point_A 1700000020000] quota_reached)
      = 1700000000000"
    by (simp add: run_def quota_reached_def initial_def handleClearAll_def handleMapPress_def)
  from quota_reached_blocks_later_calls [OF key_present lim, of Throttled
      "[LongPress, Press point_A 1700000020000]" 1700000030000
      "latitude point_A" "longitude point_A" "latitude point_B" "longitude point_B"]
  show ?thesis
    using key_present lim t by (simp add: REQUEST_INTERVAL_MS_def quota_reached_def)
qed

subsection \<open>The spacing of requests\<close>

text \<open>
  Claim C2, as stated, fails in the second revision, which has no spacing check: two calls
  one millisecond apart are both admitted and both post a request.
\<close>

theorem spacing_counterexample:
  "fst (fetchRouteFromPoints Cancelling runtime_with_key 1700000000000
        (latitude point_A) (longitude point_A) (latitude point_B) (longitude point_B) initial)
     = Admitted
   \<and> fst (fetchRouteFromPoints Cancelling runtime_with_key 1700000000001
        (latitude point_C) (longitude point_C) (latitude point_D) (longitude point_D)
        (snd (fetchRouteFromPoints Cancelling runtime_with_key 1700000000000
          (latitude point_A) (longitude point_A) (latitude point_B) (longitude point_B)
          initial)))
     = Admitted
   \<and> 1700000000001 - 1700000000000 < REQUEST_INTERVAL_MS
   \<and> length (posts (snd (fetchRouteFromPoints Cancelling runtime_with_key 1700000000001
        (latitude point_C) (longitude point_C) (latitude point_D) (longitude point_D)
        (snd (fetchRouteFromPoints Cancelling runtime_with_key 1700000000000
          (latitude point_A) (longitude point_A) (latitude point_B) (longitude point_B)
          initial))))) = 2"
  by (simp add: fetch_defs key_present SAFETY_LIMIT_eq DISABLE_QUOTA_GUARD_def initial_def
      REQUEST_INTERVAL_MS_def)

text \<open>
  Claim C2, amended to the first revision, the one with the spacing check. After a call
  admitted at \<open>now1\<close>, whatever events follow, a call admitted at \<open>now2\<close> has
  \<open>now2 - now1 \<ge> 15000\<close>; and with \<open>lastRequestTime\<close> holding the time of the last admitted
  call, a call that comes less than 15000 ms after it is \<open>RejectedTooSoon\<close> and leaves the
  state, hence the list of posted requests, as it was.
\<close>

theorem throttled_admissions_are_spaced:
  assumes "fetchRouteFromPoints Throttled rt now1 startLat startLng endLat endLng s
    = (Admitted, s1)"
  shows "lastRequestTime s1 = now1
    \<and> (fst (fetchRouteFromPoints Throttled rt now2 startLat' startLng' endLat' endLng'
          (run Throttled rt es s1)) = Admitted
        \<longrightarrow> REQUEST_INTERVAL_MS \<le> now2 - now1)
    \<and> (now2 - lastRequestTime (run Throttled rt es s1) < REQUEST_INTERVAL_MS
        \<longrightarrow> fetchRouteFromPoints Throttled rt now2 startLat' startLng' endLat' endLng'
              (run Throttled rt es s1)
            = (RejectedTooSoon, run Throttled rt es s1))"
proof (intro conjI impI)
  from assms show l1: "lastRequestTime s1 = now1"
    by (auto simp: fetch_defs split: if_splits)
  from assms have key: "\<not> key_missing rt"
    by (auto simp: fetch_defs split: if_splits)
  {
    assume "fst (fetchRouteFromPoints Throttled rt now2 startLat' startLng' endLat' endLng'
      (run Throttled rt es s1)) = Admitted"
    then have "REQUEST_INTERVAL_MS \<le> now2 - lastRequestTime (run Throttled rt es s1)"
      by (auto simp: fetch_defs split: if_splits)
    moreover have "now1 \<le> lastRequestTime (run Throttled rt es s1)"
      using run_throttled_lastRequestTime [of s1 rt es] l1 by simp
    ultimately show "REQUEST_INTERVAL_MS \<le> now2 - now1" by linarith
  }
  {
    assume "now2 - lastRequestTime (run Throttled rt es s1) < REQUEST_INTERVAL_MS"
    with key show "fetchRouteFromPoints Throttled rt now2 startLat' startLng' endLat' endLng'
        (run Throttled rt es s1) = (RejectedTooSoon, run Throttled rt es s1)"
      by (simp add: fetch_defs)
  }
qed

theorem throttled_admissions_are_spaced_witness:
  "fst (fetchRouteFromPoints Throttled runtime_with_key 1700000000000
        (latitude point_A) (longitude point_A) (latitude point_B) (longitude point_B) initial)
     = Admitted
   \<and> lastRequestTime (snd (fetchRouteFromPoints Throttled runtime_with_key 1700000000000
        (latitude point_A) (longitude point_A) (latitude point_B) (longitude point_B) initial))
     = 1700000000000
   \<and> fetchRouteFromPoints Throttled runtime_with_key 1700000001000
        (latitude point_C) (longitude point_C) (latitude point_D) (longitude point_D)
        (run Throttled runtime_with_key [LongPress]
          (snd (fetchRouteFromPoints Throttled runtime_with_key 1700000000000
            (latitude point_A) (longitude point_A) (latitude point_B) (longitude point_B)
            initial)))
     = (RejectedTooSoon,
        run Throttled runtime_with_key [LongPress]
          (snd (fetchRouteFromPoints Throttled runtime_with_key 1700000000000
            (latitude point_A) (longitude point_A) (latitude point_B) (longitude point_B)
            initial)))"
proof -
  define s1 where "s1 = snd (fetchRouteFromPoints Throttled runtime_with_key 1700000000000
      (latitude point_A) (longitude point_A) (latitude point_B) (longitude point_B) initial)"
  have adm: "fetchRouteFromPoints Throttled runtime_with_key 1700000000000
      (latitude point_A) (longitude point_A) (latitude point_B) (longitude point_B) initial
      = (Admitted, s1)"
    unfolding s1_def
    by (simp add: fetch_defs key_present SAFETY_LIMIT_eq DISABLE_QUOTA_GUARD_def initial_def
        REQUEST_INTERVAL_MS_def)
  have l: "lastRequestTime (run Throttled runtime_with_key [LongPress] s1) = 1700000000000"
    unfolding s1_def
    by (simp add: run_def handleClearAll_def fetch_defs key_present SAFETY_LIMIT_eq
        DISABLE_QUOTA_GUARD_def initial_def REQUEST_INTERVAL_MS_def)
  from throttled_admissions_are_spaced [OF adm, of 1700000001000
      "latitude point_C" "longitude point_C" "latitude point_D" "longitude point_D"
      "[LongPress]"]
  show ?thesis
    using adm l unfolding s1_def [symmetric] by (simp add: REQUEST_INTERVAL_MS_def)
qed

subsection \<open>The missing key\<close>

lemma step_key_missing:
  assumes "key_missing rt"
  shows "posts (step rv rt e s) = posts s"
proof (cases e)
  case (Press p now)
  then show ?thesis using assms
    by (cases rv) (auto simp: handleMapPress_def fetch_defs split: option.splits)
next
  case (Resolved i r)
  then show ?thesis by (cases rv; cases r) (simp_all add: handler_defs)
next
  case (Rejected i err)
  then show ?thesis by (cases rv) (simp_all add: handler_defs)
qed (auto simp: handler_defs split: option.splits revision.splits)

lemma run_key_missing:
  assumes "key_missing rt"
  shows "posts (run rv rt es s) = posts s"
proof (induction es arbitrary: s)
  case Nil
  show ?case by (simp add: run_Nil)
next
  case (Cons e es)
  then show ?case using step_key_missing [OF assms] by (simp add: run_Cons)
qed

text \<open>
  Claim C5. Without a key (\<^verbatim>\<open>undefined\<close> or empty) a call of \<open>fetchRouteFromPoints\<close>, in
  either revision and for any coordinates, leaves by its first check: it logs the error,
  changes nothing else, and posts no request. So a session without a key never posts one:
  after any events from the initial state the list of posted requests is empty.
\<close>

theorem missing_credential_posts_nothing:
  assumes "key_missing rt"
  shows "fetchRouteFromPoints rv rt now startLat startLng endLat endLng s =
      (MissingCredential, s\<lparr>console := console s @ [Console_error ''ORS API key missing'']\<rparr>)
    \<and> posts (snd (fetchRouteFromPoints rv rt now startLat startLng endLat endLng s)) = posts s
    \<and> length (posts (run rv rt es initial)) = 0"
proof -
  have "posts (run rv rt es initial) = []"
    using run_key_missing [OF assms, of rv es initial] by (simp add: initial_def)
  then show ?thesis using assms by (cases rv) (simp_all add: fetch_defs)
qed

theorem missing_credential_posts_nothing_witness:
  "key_missing runtime_without_key
   \<and> fst (fetchRouteFromPoints Cancelling runtime_without_key 1700000000000
        (latitude point_A) (longitude point_A) (latitude point_B) (longitude point_B) initial)
     = MissingCredential
   \<and> posts (snd (fetchRouteFromPoints Cancelling runtime_without_key 1700000000000
        (latitude point_A) (longitude point_A) (latitude point_B) (longitude point_B) initial))
     = []
   \<and> length (posts (run Cancelling runtime_without_key superseding_presses initial)) = 0"
  using missing_credential_posts_nothing [OF key_absent, of Cancelling 1700000000000
      "latitude point_A" "longitude point_A" "latitude point_B" "longitude point_B" initial
      superseding_presses]
  by (simp add: key_absent initial_def)

subsection \<open>Rejections\<close>

text \<open>
  Claim C6. A call that is rejected, for the quota or for the spacing, returns normally and
  leaves the request count, the time of the last request, the current token, the two
  selected points, the route, the distance and the duration as they were, and posts no
  request. In the first revision the state is the old one but for the warning on the
  console.
\<close>

theorem rejection_changes_nothing:
  assumes "fetchRouteFromPoints rv rt now startLat startLng endLat endLng s = (dec, s')"
    and "dec = RejectedQuotaExceeded \<or> dec = RejectedTooSoon"
  shows "requestCount s' = requestCount s
    \<and> lastRequestTime s' = lastRequestTime s
    \<and> cancelToken s' = cancelToken s
    \<and> startPoint s' = startPoint s
    \<and> endPoint s' = endPoint s
    \<and> routeCoords s' = routeCoords s
    \<and> distance s' = distance s
    \<and> duration s' = duration s
    \<and> posts s' = posts s
    \<and> (rv = Throttled \<longrightarrow> s' = s\<lparr>console := console s'\<rparr>)"
  using assms
  by (cases rv) (auto simp: fetch_defs split: if_splits option.splits)

theorem rejection_changes_nothing_witness:
  "fetchRouteFromPoints Throttled runtime_with_key 1700000030000
      (latitude point_A) (longitude point_A) (latitude point_B) (longitude point_B)
      quota_reached
    = (RejectedQuotaExceeded,
       quota_reached\<lparr>console := [Console_warn ''75% quota reached. Calls blocked.'']\<rparr>)
   \<and> requestCount (quota_reached\<lparr>console := [Console_warn ''75% quota reached. Calls blocked.'']\<rparr>)
      = requestCount quota_reached
   \<and> posts (quota_reached\<lparr>console := [Console_warn ''75% quota reached. Calls blocked.'']\<rparr>)
      = posts quota_reached"
proof -
  have f: "fetchRouteFromPoints Throttled runtime_with_key 1700000030000
      (latitude point_A) (longitude point_A) (latitude point_B) (longitude point_B)
      quota_reached
    = (RejectedQuotaExceeded,
       quota_reached\<lparr>console := [Console_warn ''75% quota reached. Calls blocked.'']\<rparr>)"
    by (simp add: fetch_defs key_present SAFETY_LIMIT_eq DISABLE_QUOTA_GUARD_def
        quota_reached_def initial_def REQUEST_INTERVAL_MS_def)
  from rejection_changes_nothing [OF f] f show ?thesis by simp
qed

subsection \<open>Cancellation\<close>



text \<open>
  Claim C3, as stated, fails in the first revision, which has neither a token nor a signal.
  After the taps A, B, C, D, the last one nineteen seconds after the first request, both
  requests are admitted and nothing marks the first as superseded; when its response
  arrives, the promise resolves and the route, the distance and the duration of the
  superseded request are put on the screen.
\<close>

theorem stale_completion_counterexample:
  "requestCount (run Throttled runtime_with_key unhurried_presses initial) = 2
   \<and> map signal (posts (run Throttled runtime_with_key unhurried_presses initial))
      = [None, None]
   \<and> controllers (run Throttled runtime_with_key unhurried_presses initial) = []
   \<and> cancelToken (run Throttled runtime_with_key unhurried_presses initial) = None
   \<and> routeCoords (run Throttled runtime_with_key unhurried_presses initial) = []
   \<and> distance (run Throttled runtime_with_key unhurried_presses initial) = None
   \<and> duration (run Throttled runtime_with_key unhurried_presses initial) = None
   \<and> axios_settle (run Throttled runtime_with_key unhurried_presses initial) 0
        (Responded late_response) = Resolved 0 late_response
   \<and> routeCoords (step Throttled runtime_with_key
        (axios_settle (run Throttled runtime_with_key unhurried_presses initial) 0
          (Responded late_response))
        (run Throttled runtime_with_key unhurried_presses initial)) = [point_A]
   \<and> distance (step Throttled runtime_with_key
        (axios_settle (run Throttled runtime_with_key unhurried_presses initial) 0
          (Responded late_response))
        (run Throttled runtime_with_key unhurried_presses initial)) = Some ''12.35 km''
   \<and> duration (step Throttled runtime_with_key
        (axios_settle (run Throttled runtime_with_key unhurried_presses initial) 0
          (Responded late_response))
        (run Throttled runtime_with_key unhurried_presses initial)) = Some ''30 min''"
  unfolding unhurried_state
  by (simp add: initial_def late_response_def fetch_resolved_throttled_def Let_def
      axios_settle_def signal_aborted_def
      display_distance_12345 display_duration_1800 decode_position_def point_A_def)

text \<open>
  Claim C3, amended to the second revision, the one with cancellation. An admitted call
  aborts the controller the token referred to and makes the token refer to a new
  controller, not aborted; every request posted with the old controller's signal has its
  signal aborted from then on, through any later events. The completion of such a request
  is the cancellation error whatever the transport does, response or failure, and it
  changes nothing at all in the state. Any error completion, in either revision, leaves
  the route, the distance, the duration and the two selected points as they were. In the
  first revision a response to a request, superseded or not, sets the route, the distance
  and the duration.
\<close>

theorem superseded_completion_changes_nothing:
  "(fetchRouteFromPoints Cancelling rt now startLat startLng endLat endLng s = (Admitted, s')
      \<and> cancelToken s = Some tok \<and> tok < length (controllers s)
    \<longrightarrow> controllers s' ! tok
        \<and> cancelToken s' = Some (length (controllers s))
        \<and> cancelToken s' \<noteq> Some tok
        \<and> \<not> controllers s' ! length (controllers s)
        \<and> (\<forall>j. j < length (posts s) \<and> signal (posts s ! j) = Some tok
              \<longrightarrow> signal_aborted s' j))
   \<and> (signal_aborted s i \<longrightarrow>
        signal_aborted (run Cancelling rt es s) i
        \<and> axios_settle (run Cancelling rt es s) i outcome = Rejected i canceled_error
        \<and> step Cancelling rt (axios_settle (run Cancelling rt es s) i outcome)
            (run Cancelling rt es s) = run Cancelling rt es s)
   \<and> (is_canceled err \<longrightarrow> step Cancelling rt (Rejected i err) s = s)
   \<and> routeCoords (step rv rt (Rejected i err) s) = routeCoords s
   \<and> distance (step rv rt (Rejected i err) s) = distance s
   \<and> duration (step rv rt (Rejected i err) s) = duration s
   \<and> startPoint (step rv rt (Rejected i err) s) = startPoint s
   \<and> endPoint (step rv rt (Rejected i err) s) = endPoint s
   \<and> (signal_aborted s i \<or>
        step Throttled rt (axios_settle s i (Responded (f # fs))) s =
          s\<lparr>distance := Some (display_distance rt (summary_distance f)),
            duration := Some (display_duration rt (summary_duration f)),
            routeCoords := map decode_position (geometry_coordinates f)\<rparr>)"
proof -
  have adm: "controllers s' ! tok \<and> cancelToken s' = Some (length (controllers s))
      \<and> cancelToken s' \<noteq> Some tok \<and> \<not> controllers s' ! length (controllers s)
      \<and> (\<forall>j. j < length (posts s) \<and> signal (posts s ! j) = Some tok
            \<longrightarrow> signal_aborted s' j)"
    if "fetchRouteFromPoints Cancelling rt now startLat startLng endLat endLng s = (Admitted, s')"
      and "cancelToken s = Some tok" and "tok < length (controllers s)"
    using that
    by (auto simp: fetch_defs nth_append signal_aborted_iff split: if_splits)
  have sup: "signal_aborted (run Cancelling rt es s) i
      \<and> axios_settle (run Cancelling rt es s) i outcome = Rejected i canceled_error
      \<and> step Cancelling rt (axios_settle (run Cancelling rt es s) i outcome)
          (run Cancelling rt es s) = run Cancelling rt es s"
    if "signal_aborted s i"
  proof -
    have a: "signal_aborted (run Cancelling rt es s) i"
      using that by (rule run_keeps_aborted)
    then show ?thesis using settle_aborted [OF a] by (simp add: axios_settle_def)
  qed
  have rej: "routeCoords (step rv rt (Rejected i err) s) = routeCoords s
      \<and> distance (step rv rt (Rejected i err) s) = distance s
      \<and> duration (step rv rt (Rejected i err) s) = duration s
      \<and> startPoint (step rv rt (Rejected i err) s) = startPoint s
      \<and> endPoint (step rv rt (Rejected i err) s) = endPoint s"
    by (cases rv) (simp_all add: handler_defs)
  have can: "step Cancelling rt (Rejected i err) s = s" if "is_canceled err"
    using that by (simp add: handler_defs)
  have res: "signal_aborted s i \<or>
      step Throttled rt (axios_settle s i (Responded (f # fs))) s =
        s\<lparr>distance := Some (display_distance rt (summary_distance f)),
          duration := Some (display_duration rt (summary_duration f)),
          routeCoords := map decode_position (geometry_coordinates f)\<rparr>"
    by (simp add: axios_settle_def handler_defs Let_def)
  from adm sup rej can res show ?thesis by blast
qed

theorem superseded_completion_changes_nothing_witness:
  "fst (fetchRouteFromPoints Cancelling runtime_with_key 1700000003000
      (latitude point_C) (longitude point_C) (latitude point_D) (longitude point_D)
      (run Cancelling runtime_with_key
        [Press point_A 1700000000000, Press point_B 1700000001000,
         Press point_C 1700000002000] initial)) = Admitted
   \<and> cancelToken (run Cancelling runtime_with_key
        [Press point_A 1700000000000, Press point_B 1700000001000,
         Press point_C 1700000002000] initial) = Some 0
   \<and> signal_aborted (run Cancelling runtime_with_key superseding_presses initial) 0
   \<and> step Cancelling runtime_with_key
        (axios_settle (run Cancelling runtime_with_key superseding_presses initial) 0
          (Responded late_response))
        (run Cancelling runtime_with_key superseding_presses initial)
      = run Cancelling runtime_with_key superseding_presses initial
   \<and> is_canceled canceled_error
   \<and> step Cancelling runtime_with_key (Rejected 0 canceled_error) initial = initial"
proof -
  define s0 where "s0 = run Cancelling runtime_with_key
      [Press point_A 1700000000000, Press point_B 1700000001000,
       Press point_C 1700000002000] initial"
  define s1 where "s1 = run Cancelling runtime_with_key superseding_presses initial"
  have s0: "cancelToken s0 = Some 0" "controllers s0 = [False]" "length (posts s0) = 1"
    "signal (posts s0 ! 0) = Some 0"
    unfolding s0_def
    by (simp_all add: run_def initial_def handleMapPress_def fetch_defs
      key_present key_value SAFETY_LIMIT_eq DISABLE_QUOTA_GUARD_def)
  have adm: "fst (fetchRouteFromPoints Cancelling runtime_with_key 1700000003000
      (latitude point_C) (longitude point_C) (latitude point_D) (longitude point_D) s0)
      = Admitted"
    unfolding s0_def
    by (simp add: run_def initial_def handleMapPress_def fetch_defs
      key_present key_value SAFETY_LIMIT_eq DISABLE_QUOTA_GUARD_def)
  have ab: "signal_aborted s1 0"
    unfolding s1_def superseded_state by (simp add: signal_aborted_def initial_def)
  note t = superseded_completion_changes_nothing [where rt = runtime_with_key and s = s1
      and i = 0 and es = "[]" and outcome = "Responded late_response"
      and err = canceled_error]
  from t ab have 1: "step Cancelling runtime_with_key
      (axios_settle (run Cancelling runtime_with_key [] s1) 0 (Responded late_response))
      (run Cancelling runtime_with_key [] s1) = run Cancelling runtime_with_key [] s1"
    by blast
  then have 1: "step Cancelling runtime_with_key
      (axios_settle s1 0 (Responded late_response)) s1 = s1"
    by (simp add: run_Nil)
  from superseded_completion_changes_nothing [where rt = runtime_with_key and s = initial
      and i = 0 and err = canceled_error] is_canceled_canceled_error
  have 2: "step Cancelling runtime_with_key (Rejected 0 canceled_error) initial = initial"
    by blast
  from adm s0(1) ab 1 is_canceled_canceled_error 2 show ?thesis
    unfolding s0_def s1_def by (intro conjI)
qed

subsection \<open>The selection\<close>

lemma fetch_selection:
  "startPoint (snd (fetchRouteFromPoints rv rt now startLat startLng endLat endLng s))
      = startPoint s
   \<and> endPoint (snd (fetchRouteFromPoints rv rt now startLat startLng endLat endLng s))
      = endPoint s"
  by (cases rv) (auto simp: fetch_defs split: option.splits)

lemma step_end_needs_start:
  assumes "end_needs_start s"
  shows "end_needs_start (step rv rt e s)"
proof (cases e)
  case (Press p now)
  then show ?thesis using assms fetch_selection [of rv rt now _ _ _ _ "s\<lparr>endPoint := Some p\<rparr>"]
    by (auto simp: end_needs_start_def handleMapPress_def split: option.splits)
next
  case (Resolved i r)
  then show ?thesis using assms
    by (cases rv; cases r) (simp_all add: handler_defs end_needs_start_def Let_def)
next
  case (Rejected i err)
  then show ?thesis using assms by (cases rv) (simp_all add: handler_defs end_needs_start_def)
qed (use assms in \<open>auto simp: handler_defs end_needs_start_def split: option.splits revision.splits\<close>)

lemma run_end_needs_start:
  assumes "end_needs_start s"
  shows "end_needs_start (run rv rt es s)"
  using assms
proof (induction es arbitrary: s)
  case Nil
  then show ?case by (simp add: run_Nil)
next
  case (Cons e es)
  then show ?case using step_end_needs_start by (simp add: run_Cons)
qed

lemma reachable_end_needs_start: "end_needs_start (run rv rt es initial)"
  by (rule run_end_needs_start) (simp add: end_needs_start_def initial_def)

text \<open>
  Claim C4. Every state reached from the initial one has its end point set only with its
  start point, and on any such state the two cells stand for one of the three states and
  the handlers move between them as the state machine of the specification does: a press
  at \<open>p\<close> is the transition on \<open>Tap p\<close>, the long press and the clear button are the
  transition on \<open>Clear\<close> and end in \<open>Idle\<close> with no route, distance or duration. A press in
  \<open>StartChosen a\<close> is the call of \<open>fetchRouteFromPoints\<close> from \<open>a\<close> to \<open>p\<close> on the state with
  the end point set; a press in \<open>RouteReady\<close> or \<open>Idle\<close> clears the route, the distance and
  the duration and posts nothing.
\<close>

theorem handlers_realise_state_machine:
  assumes "end_needs_start s"
  shows "end_needs_start (run rv rt es initial)
    \<and> selection_of (step rv rt (Press p now) s) = spec_transition (selection_of s) (Tap p)
    \<and> selection_of (step rv rt LongPress s) = spec_transition (selection_of s) Clear
    \<and> selection_of (step rv rt ClearButton s) = spec_transition (selection_of s) Clear
    \<and> step rv rt LongPress s = handleClearAll s
    \<and> step rv rt ClearButton s = handleClearAll s
    \<and> selection_of (handleClearAll s) = Idle
    \<and> routeCoords (handleClearAll s) = []
    \<and> distance (handleClearAll s) = None
    \<and> duration (handleClearAll s) = None
    \<and> (\<forall>a. selection_of s = StartChosen a \<longrightarrow>
          step rv rt (Press p now) s =
            snd (fetchRouteFromPoints rv rt now
                   (latitude a) (longitude a) (latitude p) (longitude p)
                   (s\<lparr>endPoint := Some p\<rparr>)))
    \<and> ((\<exists>a. selection_of s = StartChosen a) \<or>
          routeCoords (step rv rt (Press p now) s) = []
          \<and> distance (step rv rt (Press p now) s) = None
          \<and> duration (step rv rt (Press p now) s) = None
          \<and> posts (step rv rt (Press p now) s) = posts s)"
proof -
  have clear: "selection_of (handleClearAll s) = Idle"
    "routeCoords (handleClearAll s) = []" "distance (handleClearAll s) = None"
    "duration (handleClearAll s) = None"
    by (simp_all add: handleClearAll_def selection_of_def)
  have clr: "spec_transition (selection_of s) Clear = Idle"
    by simp
  have press: "selection_of (step rv rt (Press p now) s) = spec_transition (selection_of s) (Tap p)"
    using assms fetch_selection [of rv rt now _ _ _ _ "s\<lparr>endPoint := Some p\<rparr>"]
    by (auto simp: selection_of_def end_needs_start_def handleMapPress_def split: option.splits)
  have trig: "step rv rt (Press p now) s =
      snd (fetchRouteFromPoints rv rt now (latitude a) (longitude a) (latitude p) (longitude p)
             (s\<lparr>endPoint := Some p\<rparr>))"
    if "selection_of s = StartChosen a" for a
    using that by (auto simp: selection_of_def handleMapPress_def split: option.splits)
  have other: "(\<exists>a. selection_of s = StartChosen a) \<or>
      routeCoords (step rv rt (Press p now) s) = []
      \<and> distance (step rv rt (Press p now) s) = None
      \<and> duration (step rv rt (Press p now) s) = None
      \<and> posts (step rv rt (Press p now) s) = posts s"
    by (auto simp: selection_of_def handleMapPress_def split: option.splits)
  from reachable_end_needs_start [of rv rt es] clear clr press trig other
  show ?thesis by simp
qed

theorem handlers_realise_state_machine_witness:
  "end_needs_start (initial\<lparr>startPoint := Some point_A\<rparr>)
   \<and> selection_of (initial\<lparr>startPoint := Some point_A\<rparr>) = StartChosen point_A
   \<and> selection_of (step Throttled runtime_with_key (Press point_B 1700000000000)
        (initial\<lparr>startPoint := Some point_A\<rparr>)) = RouteReady point_A point_B
   \<and> selection_of (step Throttled runtime_with_key LongPress
        (initial\<lparr>startPoint := Some point_A\<rparr>)) = Idle
   \<and> step Throttled runtime_with_key (Press point_B 1700000000000)
        (initial\<lparr>startPoint := Some point_A\<rparr>)
      = snd (fetchRouteFromPoints Throttled runtime_with_key 1700000000000
          (latitude point_A) (longitude point_A) (latitude point_B) (longitude point_B)
          (initial\<lparr>startPoint := Some point_A, endPoint := Some point_B\<rparr>))"
proof -
  have inv: "end_needs_start (initial\<lparr>startPoint := Some point_A\<rparr>)"
    by (simp add: end_needs_start_def)
  have sel: "selection_of (initial\<lparr>startPoint := Some point_A\<rparr>) = StartChosen point_A"
    by (simp add: selection_of_def initial_def)
  note t = handlers_realise_state_machine [OF inv, where rv = Throttled
      and rt = runtime_with_key and es = "[]" and p = point_B and now = 1700000000000]
  from t have "selection_of (step Throttled runtime_with_key (Press point_B 1700000000000)
        (initial\<lparr>startPoint := Some point_A\<rparr>))
      = spec_transition (selection_of (initial\<lparr>startPoint := Some point_A\<rparr>)) (Tap point_B)"
    by blast
  then have 1: "selection_of (step Throttled runtime_with_key (Press point_B 1700000000000)
        (initial\<lparr>startPoint := Some point_A\<rparr>)) = RouteReady point_A point_B"
    unfolding sel by simp
  from t have "selection_of (step Throttled runtime_with_key LongPress
        (initial\<lparr>startPoint := Some point_A\<rparr>))
      = spec_transition (selection_of (initial\<lparr>startPoint := Some point_A\<rparr>)) Clear"
    by blast
  then have 2: "selection_of (step Throttled runtime_with_key LongPress
        (initial\<lparr>startPoint := Some point_A\<rparr>)) = Idle"
    by simp
  from t sel have "step Throttled runtime_with_key (Press point_B 1700000000000)
        (initial\<lparr>startPoint := Some point_A\<rparr>)
      = snd (fetchRouteFromPoints Throttled runtime_with_key 1700000000000
          (latitude point_A) (longitude point_A) (latitude point_B) (longitude point_B)
          (initial\<lparr>startPoint := Some point_A\<rparr>\<lparr>endPoint := Some point_B\<rparr>))"
    by blast
  then have 3: "step Throttled runtime_with_key (Press point_B 1700000000000)
        (initial\<lparr>startPoint := Some point_A\<rparr>)
      = snd (fetchRouteFromPoints Throttled runtime_with_key 1700000000000
          (latitude point_A) (longitude point_A) (latitude point_B) (longitude point_B)
          (initial\<lparr>startPoint := Some point_A, endPoint := Some point_B\<rparr>))"
    by simp
  from inv sel 1 2 3 show ?thesis by (intro conjI)
qed

end
